theory Spec2Isabelle
  imports Main
begin

section \<open>JavaScript strings and plain objects\<close>

text \<open>
  A JavaScript string is a sequence of code units. The model keeps the code units below
  \<open>0x100\<close>, one \<^typ>\<open>char\<close> each. \<open>String.prototype.trim\<close> removes the white space and
  line terminators of ECMAScript from both ends; in this range they are TAB, LF, VT, FF,
  CR, SPACE and NBSP.
\<close>

definition is_js_space :: "char \<Rightarrow> bool" where
  "is_js_space c =
     (c = CHR 0x09 \<or> c = CHR 0x0A \<or> c = CHR 0x0B \<or> c = CHR 0x0C \<or> c = CHR 0x0D \<or>
      c = CHR 0x20 \<or> c = CHR 0xA0)"

definition trim :: "string \<Rightarrow> string" where
  "trim s = rev (dropWhile is_js_space (rev (dropWhile is_js_space s)))"

text \<open>
  A plain object is the list of its own properties in property order. An object literal
  \<open>{...prev, [k]: v}\<close> keeps the place of a key that \<open>prev\<close> already has; a new key
  goes to the end, except that array-index keys (canonical decimal numerals below
  \<open>2^32 - 1\<close>) come first, in ascending order.
\<close>

type_synonym 'v js_object = "(string \<times> 'v) list"

definition is_digit :: "char \<Rightarrow> bool" where
  "is_digit c = (48 \<le> (of_char c :: nat) \<and> (of_char c :: nat) \<le> 57)"

definition digits_value :: "string \<Rightarrow> nat" where
  "digits_value k = foldl (\<lambda>n c. 10 * n + ((of_char c :: nat) - 48)) 0 k"

definition is_array_index :: "string \<Rightarrow> bool" where
  "is_array_index k =
     (k \<noteq> [] \<and> list_all is_digit k \<and> (k = ''0'' \<or> hd k \<noteq> CHR ''0'') \<and>
      digits_value k < 4294967295)"

fun obj_add :: "string \<Rightarrow> 'v \<Rightarrow> 'v js_object \<Rightarrow> 'v js_object" where
  "obj_add k v [] = [(k, v)]"
| "obj_add k v ((k', v') # rest) =
     (if is_array_index k \<and> (\<not> is_array_index k' \<or> digits_value k < digits_value k')
      then (k, v) # (k', v') # rest
      else (k', v') # obj_add k v rest)"

definition obj_put :: "string \<Rightarrow> 'v \<Rightarrow> 'v js_object \<Rightarrow> 'v js_object" where
  "obj_put k v obj =
     (if k \<in> fst ` set obj
      then map (\<lambda>(k', v'). if k' = k then (k', v) else (k', v')) obj
      else obj_add k v obj)"

definition obj_get :: "'v js_object \<Rightarrow> string \<Rightarrow> 'v option" where
  "obj_get obj k = map_of obj k"

definition obj_keys :: "'v js_object \<Rightarrow> string list" where
  "obj_keys obj = map fst obj"

section \<open>The upload page (\<open>Upload.jsx\<close>)\<close>

text \<open>A \<open>File\<close> chosen in a \<open>FileUpload\<close> input.\<close>

record js_file =
  name :: string
  size_bytes :: nat

text \<open>The \<open>useState\<close> variables of \<open>Upload\<close>.\<close>

record upload_state =
  topModule :: string
  numSubModules :: nat
  subModuleNames :: "string list"
  uploads :: "js_file list js_object js_object"
  submitStatus :: string

definition initial_upload :: upload_state where
  "initial_upload =
     \<lparr>topModule = [], numSubModules = 1, subModuleNames = [[]], uploads = [],
      submitStatus = []\<rparr>"

text \<open>The top-module input: \<open>onChange={(e) => setTopModule(e.target.value)}\<close>.\<close>

definition setTopModule :: "string \<Rightarrow> upload_state \<Rightarrow> upload_state" where
  "setTopModule v s = s\<lparr>topModule := v\<rparr>"

text \<open>
  \<open>handleSubModuleNameChange(idx, value)\<close> is bound to the input of row \<open>idx\<close> of
  \<open>subModuleNames.map\<close>, so it runs only with \<open>idx\<close> below the length.
\<close>

definition handleSubModuleNameChange :: "nat \<Rightarrow> string \<Rightarrow> upload_state \<Rightarrow> upload_state" where
  "handleSubModuleNameChange idx v s =
     (if idx < length (subModuleNames s)
      then s\<lparr>subModuleNames := (subModuleNames s)[idx := v]\<rparr>
      else s)"

text \<open>
  \<open>handleNumSubModulesChange\<close>: \<open>count = Math.max(1, parseInt(e.target.value) || 1)\<close>, then
  the two \<open>while\<close> loops on the copy of the names. The argument is the result of
  \<open>parseInt\<close>, \<open>None\<close> for \<open>NaN\<close>.
\<close>

function push_empty :: "nat \<Rightarrow> string list \<Rightarrow> string list" where
  "push_empty count newArr =
     (if length newArr < count then push_empty count (newArr @ [[]]) else newArr)"
  by pat_completeness auto
termination
  by (relation "measure (\<lambda>(count, newArr). count - length newArr)") auto

function pop_extra :: "nat \<Rightarrow> string list \<Rightarrow> string list" where
  "pop_extra count newArr =
     (if length newArr > count then pop_extra count (butlast newArr) else newArr)"
  by pat_completeness auto
termination
  by (relation "measure (\<lambda>(count, newArr). length newArr)") auto

definition handleNumSubModulesChange :: "int option \<Rightarrow> upload_state \<Rightarrow> upload_state" where
  "handleNumSubModulesChange parsed s =
     (let count = nat (max 1 (case parsed of None \<Rightarrow> 1 | Some n \<Rightarrow> if n = 0 then 1 else n))
      in s\<lparr>numSubModules := count,
           subModuleNames := pop_extra count (push_empty count (subModuleNames s))\<rparr>)"

text \<open>
  \<open>handleUpload(module, category, files)\<close>:
  \<open>{...prev, [module]: {...(prev[module] || {}), [category]: files}}\<close>.
\<close>

definition handleUpload :: "string \<Rightarrow> string \<Rightarrow> js_file list \<Rightarrow> upload_state \<Rightarrow> upload_state" where
  "handleUpload module category files s =
     (let prev = uploads s;
          inner = (case obj_get prev module of None \<Rightarrow> [] | Some cats \<Rightarrow> cats)
      in s\<lparr>uploads := obj_put module (obj_put category files inner) prev\<rparr>)"

text \<open>
  The \<open>onUpload\<close> callbacks of the page: each top-module input passes the top-module name
  of the render it belongs to, the input of sub-module row \<open>idx\<close> passes that row's name.
\<close>

definition top_onUpload :: "string \<Rightarrow> js_file list \<Rightarrow> upload_state \<Rightarrow> upload_state" where
  "top_onUpload category files s = handleUpload (topModule s) category files s"

definition sub_onUpload :: "nat \<Rightarrow> js_file list \<Rightarrow> upload_state \<Rightarrow> upload_state" where
  "sub_onUpload idx files s =
     (if idx < length (subModuleNames s)
      then handleUpload (subModuleNames s ! idx) ''communication'' files s
      else s)"

section \<open>JSON values, JSON text and \<open>localStorage\<close>\<close>

text \<open>
  The values of JSON. Numbers are integers here; the pages store none.
\<close>

datatype jsval =
  JNull
| JBool bool
| JNum int
| JStr string
| JArr "jsval list"
| JObj "jsval js_object"

text \<open>\<open>ToBoolean\<close>, as \<open>!data\<close> applies it.\<close>

fun truthy :: "jsval \<Rightarrow> bool" where
  "truthy JNull = False"
| "truthy (JBool b) = b"
| "truthy (JNum n) = (n \<noteq> 0)"
| "truthy (JStr s) = (s \<noteq> [])"
| "truthy (JArr xs) = True"
| "truthy (JObj ps) = True"

text \<open>
  A string kept in \<open>localStorage\<close> is modelled by what \<open>JSON.parse\<close> makes of it:
  \<open>JsonText v\<close> is a JSON text of the value \<open>v\<close>, as \<open>JSON.stringify\<close> writes it and
  \<open>JSON.parse\<close> reads it back; \<open>OtherText s\<close> is the text \<open>s\<close> when \<open>JSON.parse\<close> rejects
  it (the empty string among them).
\<close>

datatype doc_text = JsonText jsval | OtherText string

datatype js_error = SyntaxError | TypeError | RangeError | InvalidChild

definition JSON_stringify :: "jsval \<Rightarrow> doc_text" where
  "JSON_stringify v = JsonText v"

fun JSON_parse :: "doc_text \<Rightarrow> js_error + jsval" where
  "JSON_parse (JsonText v) = Inr v"
| "JSON_parse (OtherText s) = Inl SyntaxError"

text \<open>A string is falsy exactly when it is empty; no JSON text is empty.\<close>

fun text_truthy :: "doc_text \<Rightarrow> bool" where
  "text_truthy (JsonText v) = True"
| "text_truthy (OtherText s) = (s \<noteq> [])"

type_synonym storage = "string \<rightharpoonup> doc_text"

section \<open>Submitting the upload page\<close>

text \<open>The object literal \<open>{ topModule, subModules: subModuleNames, uploads }\<close>.\<close>

record upload_package =
  p_topModule :: string
  p_subModules :: "string list"
  p_uploads :: "js_file list js_object js_object"

text \<open>
  The JSON value that \<open>JSON.stringify(uploadPackage)\<close> writes. A \<open>File\<close> has no enumerable
  own property, so each file is written as \<open>{}\<close>.
\<close>

definition package_json :: "upload_package \<Rightarrow> jsval" where
  "package_json p =
     JObj [(''topModule'', JStr (p_topModule p)),
           (''subModules'', JArr (map JStr (p_subModules p))),
           (''uploads'',
              JObj (map (\<lambda>(m, cats).
                          (m, JObj (map (\<lambda>(c, fs). (c, JArr (map (\<lambda>f. JObj []) fs))) cats)))
                     (p_uploads p)))]"

text \<open>
  What one run of \<open>handleSubmit\<close> does: the alert it shows (when it returns early), the
  package it builds, the component state and the storage afterwards, and the navigation
  it schedules with \<open>setTimeout\<close>.
\<close>

record submit_result =
  alerted :: "string option"
  built :: "upload_package option"
  state_after :: upload_state
  storage_after :: storage
  navigation :: "(nat \<times> string) option"

definition handleSubmit :: "upload_state \<Rightarrow> storage \<Rightarrow> submit_result" where
  "handleSubmit s st =
     (if trim (topModule s) = [] then
        \<lparr>alerted = Some ''Enter top module name'', built = None, state_after = s,
         storage_after = st, navigation = None\<rparr>
      else if list_ex (\<lambda>name. trim name = []) (subModuleNames s) then
        \<lparr>alerted = Some ''Enter all sub-module names'', built = None, state_after = s,
         storage_after = st, navigation = None\<rparr>
      else
        let uploadPackage =
              \<lparr>p_topModule = topModule s, p_subModules = subModuleNames s,
               p_uploads = uploads s\<rparr>
        in \<lparr>alerted = None, built = Some uploadPackage,
            state_after = s\<lparr>submitStatus := ''Submitted successfully! Redirecting...''\<rparr>,
            storage_after = st(''uploadData'' \<mapsto> JSON_stringify (package_json uploadPackage)),
            navigation = Some (1000, ''/codeview'')\<rparr>)"

section \<open>Values at run time\<close>

text \<open>
  What an expression of \<open>CodeViewer\<close> can evaluate to: \<open>undefined\<close>, a value of the parsed
  data, or a property that the value inherits from a built-in prototype (a function or a
  prototype object: truthy, without enumerable own properties and without a property
  \<open>communication\<close>).
\<close>

datatype rt = Undefined | Inherited | Value jsval

fun truthy_rt :: "rt \<Rightarrow> bool" where
  "truthy_rt Undefined = False"
| "truthy_rt Inherited = True"
| "truthy_rt (Value v) = truthy v"

text \<open>
  Three tables of the JavaScript engine are parameters: which property names a value
  inherits from its prototype chain; \<open>ToLength(ToNumber(v))\<close>, the length that
  \<open>Array.from\<close> reads off the \<open>length\<close> property of an array-like object; and the
  text that \<open>ToString\<close> gives a number beyond the safe integers, which it rounds or
  writes with an exponent.
\<close>

record engine =
  inherits :: "jsval \<Rightarrow> string \<Rightarrow> bool"
  to_length :: "jsval \<Rightarrow> nat"
  number_text :: "int \<Rightarrow> string"

text \<open>The decimal numeral of a number, as \<open>ToString\<close> writes a safe integer.\<close>

fun decimal :: "nat \<Rightarrow> string" where
  "decimal n =
     (if n < 10 then [char_of (48 + n)] else decimal (n div 10) @ [char_of (48 + n mod 10)])"

fun join_commas :: "string list \<Rightarrow> string" where
  "join_commas [] = []"
| "join_commas [s] = s"
| "join_commas (s # t # ss) = s @ '','' @ join_commas (t # ss)"

text \<open>
  \<open>ToString\<close>, which turns the value between the brackets of \<open>data.uploads[...]\<close> into a
  property key (\<open>None\<close> is \<open>undefined\<close>). An array is joined with commas, a \<open>null\<close>
  element giving the empty string.
\<close>

fun to_string :: "engine \<Rightarrow> jsval \<Rightarrow> string" where
  "to_string e JNull = ''null''"
| "to_string e (JBool b) = (if b then ''true'' else ''false'')"
| "to_string e (JNum n) =
     (if \<bar>n\<bar> > 9007199254740991 then number_text e n
      else if n < 0 then ''-'' @ decimal (nat (- n))
      else decimal (nat n))"
| "to_string e (JStr s) = s"
| "to_string e (JArr xs) =
     join_commas (map (\<lambda>x. if x = JNull then [] else to_string e x) xs)"
| "to_string e (JObj ps) = ''[object Object]''"

fun to_key :: "engine \<Rightarrow> jsval option \<Rightarrow> string" where
  "to_key e None = ''undefined''"
| "to_key e (Some v) = to_string e v"

text \<open>
  The own properties: those of an object; \<open>length\<close> and the indices of an array and of a
  string; none of a number or a boolean.
\<close>

fun own_property :: "jsval \<Rightarrow> string \<Rightarrow> jsval option" where
  "own_property (JObj ps) k = obj_get ps k"
| "own_property (JArr xs) k =
     (if k = ''length'' then Some (JNum (int (length xs)))
      else if is_array_index k \<and> digits_value k < length xs then Some (xs ! digits_value k)
      else None)"
| "own_property (JStr s) k =
     (if k = ''length'' then Some (JNum (int (length s)))
      else if is_array_index k \<and> digits_value k < length s then Some (JStr [s ! digits_value k])
      else None)"
| "own_property v k = None"

text \<open>
  \<open>v.name\<close> for the names that the component writes (\<open>topModule\<close>, \<open>uploads\<close>,
  \<open>subModules\<close>, \<open>communication\<close>), which no built-in prototype defines, so that the
  result is an own property or \<open>undefined\<close> (\<open>None\<close>); and \<open>v[k]\<close> for a computed key,
  which can name an inherited property. Both are for a \<open>v\<close> other than \<open>null\<close>, on which
  a property read throws.
\<close>

definition field :: "jsval \<Rightarrow> string \<Rightarrow> jsval option" where
  "field v k = own_property v k"

fun of_option :: "jsval option \<Rightarrow> rt" where
  "of_option None = Undefined"
| "of_option (Some v) = Value v"

definition member :: "engine \<Rightarrow> jsval \<Rightarrow> string \<Rightarrow> rt" where
  "member e v k =
     (case own_property v k of
        Some x \<Rightarrow> Value x
      | None \<Rightarrow> if inherits e v k then Inherited else Undefined)"

text \<open>
  \<open>Object.entries\<close> of a truthy value: the own enumerable properties of an object, the
  indexed elements of an array and of a string, nothing otherwise.
\<close>

definition indexed :: "'a list \<Rightarrow> (string \<times> 'a) list" where
  "indexed xs = zip (map decimal [0..<length xs]) xs"

fun object_entries :: "rt \<Rightarrow> (string \<times> jsval) list" where
  "object_entries (Value (JObj ps)) = ps"
| "object_entries (Value (JArr xs)) = indexed xs"
| "object_entries (Value (JStr s)) = indexed (map (\<lambda>c. JStr [c]) s)"
| "object_entries v = []"

text \<open>
  \<open>Object.values\<close>: a \<open>TypeError\<close> on \<open>undefined\<close> and \<open>null\<close>, the own enumerable
  property values otherwise.
\<close>

fun object_values :: "rt \<Rightarrow> js_error + jsval list" where
  "object_values Undefined = Inl TypeError"
| "object_values (Value JNull) = Inl TypeError"
| "object_values v = Inr (map snd (object_entries v))"

text \<open>
  \<open>Array.from\<close> of a property value: a \<open>TypeError\<close> on \<open>null\<close>; the elements of an array
  and of a string; nothing for a number or a boolean; for an object the elements
  \<open>0 .. length - 1\<close> of the array-like, \<open>undefined\<close> where the object has no such
  property, and a \<open>RangeError\<close> when the length is above \<open>2^32 - 1\<close>.
\<close>

fun array_from :: "engine \<Rightarrow> jsval \<Rightarrow> js_error + rt list" where
  "array_from e JNull = Inl TypeError"
| "array_from e (JArr xs) = Inr (map Value xs)"
| "array_from e (JStr s) = Inr (map (\<lambda>c. Value (JStr [c])) s)"
| "array_from e (JObj ps) =
     (case obj_get ps ''length'' of
        None \<Rightarrow> Inr []
      | Some l \<Rightarrow>
          if to_length e l > 4294967295 then Inl RangeError
          else Inr (map (\<lambda>i. case obj_get ps (decimal i) of
                                None \<Rightarrow> Undefined
                              | Some x \<Rightarrow> Value x)
                        [0..<to_length e l]))"
| "array_from e v = Inr []"

section \<open>Object URLs\<close>

text \<open>
  The browser's registry of object URLs. \<open>URL.createObjectURL\<close> registers a fresh URL
  for a \<open>Blob\<close> and throws a \<open>TypeError\<close> for an argument that is none: a value of
  parsed JSON data, \<open>undefined\<close> or a built-in. \<open>URL.revokeObjectURL\<close> releases a URL and
  ignores one that is not registered. The log keeps every call: a creation, a refused
  creation, a revocation; \<open>clicked\<close> keeps the downloads started by clicking a link.
\<close>

datatype url_call = Created nat | Refused | Revoked nat

record browser =
  next_url :: nat
  live_urls :: "nat list"
  url_log :: "url_call list"
  clicked :: "(nat \<times> string) list"

type_synonym 'a io = "browser \<Rightarrow> (js_error + 'a) \<times> browser"

definition ret :: "'a \<Rightarrow> 'a io" where
  "ret x = (\<lambda>b. (Inr x, b))"

definition throw :: "js_error \<Rightarrow> 'a io" where
  "throw e = (\<lambda>b. (Inl e, b))"

definition and_then :: "'a io \<Rightarrow> ('a \<Rightarrow> 'b io) \<Rightarrow> 'b io" where
  "and_then m f = (\<lambda>b. case m b of (Inl e, b') \<Rightarrow> (Inl e, b') | (Inr x, b') \<Rightarrow> f x b')"

fun each :: "('a \<Rightarrow> 'b io) \<Rightarrow> 'a list \<Rightarrow> 'b list io" where
  "each f [] = ret []"
| "each f (x # xs) = and_then (f x) (\<lambda>y. and_then (each f xs) (\<lambda>ys. ret (y # ys)))"

datatype url_source = NewBlob string string | NoBlob rt

definition createObjectURL :: "url_source \<Rightarrow> nat io" where
  "createObjectURL src =
     (\<lambda>b. case src of
            NewBlob content type \<Rightarrow>
              (Inr (next_url b),
               b\<lparr>next_url := Suc (next_url b), live_urls := live_urls b @ [next_url b],
                 url_log := url_log b @ [Created (next_url b)]\<rparr>)
          | NoBlob v \<Rightarrow> (Inl TypeError, b\<lparr>url_log := url_log b @ [Refused]\<rparr>))"

definition revokeObjectURL :: "nat \<Rightarrow> unit io" where
  "revokeObjectURL u =
     (\<lambda>b. (Inr (), b\<lparr>live_urls := removeAll u (live_urls b),
                      url_log := url_log b @ [Revoked u]\<rparr>))"

fun is_created :: "url_call \<Rightarrow> bool" where
  "is_created (Created u) = True"
| "is_created c = False"

fun is_revoked :: "url_call \<Rightarrow> bool" where
  "is_revoked (Revoked u) = True"
| "is_revoked c = False"

definition creations :: "browser \<Rightarrow> nat" where
  "creations b = length (filter is_created (url_log b))"

definition revocations :: "browser \<Rightarrow> nat" where
  "revocations b = length (filter is_revoked (url_log b))"

definition fresh_browser :: browser where
  "fresh_browser = \<lparr>next_url = 0, live_urls = [], url_log = [], clicked = []\<rparr>"

section \<open>The code viewer (\<open>pages/CodeViewer.jsx\<close>)\<close>

text \<open>
  The mount effect: \<open>saved = localStorage.getItem("uploadData")\<close>;
  \<open>if (saved) setData(JSON.parse(saved))\<close>. The result is the value of \<open>data\<close>
  afterwards (\<open>None\<close> is its initial \<open>null\<close>), or the error that \<open>JSON.parse\<close> throws
  out of the effect.
\<close>

definition CodeViewer_effect :: "storage \<Rightarrow> js_error + jsval option" where
  "CodeViewer_effect st =
     (case st ''uploadData'' of
        None \<Rightarrow> Inr None
      | Some saved \<Rightarrow>
          if text_truthy saved
          then (case JSON_parse saved of Inl e \<Rightarrow> Inl e | Inr v \<Rightarrow> Inr (Some v))
          else Inr None)"

text \<open>
  \<open>const viewURL = (file) => file ? URL.createObjectURL(file) : null\<close>. The files of
  \<open>data\<close> are values of parsed JSON.
\<close>

definition viewURL :: "rt \<Rightarrow> nat option io" where
  "viewURL file =
     (if truthy_rt file
      then and_then (createObjectURL (NoBlob file)) (\<lambda>u. ret (Some u))
      else ret None)"

text \<open>
  One file row: the View link, then the Download link, whose \<open>download={file.name}\<close>
  throws when \<open>file\<close> is \<open>undefined\<close> or \<open>null\<close>.
\<close>

record link_row =
  view_href :: "nat option"
  download_href :: "nat option"

definition file_row :: "rt \<Rightarrow> link_row io" where
  "file_row file =
     and_then (viewURL file) (\<lambda>v.
     and_then (viewURL file) (\<lambda>d.
       if file = Undefined \<or> file = Value JNull then throw TypeError
       else ret \<lparr>view_href = v, download_href = d\<rparr>))"

text \<open>
  The rows of the top module: \<open>data.uploads[data.topModule] &&
  Object.entries(data.uploads[data.topModule]).map(([key, files]) =>
  Array.from(files).map(...))\<close>, for the value \<open>ups\<close> of \<open>data.uploads\<close> and the key of
  \<open>data.topModule\<close>.
\<close>

definition category_rows :: "engine \<Rightarrow> string \<times> jsval \<Rightarrow> link_row list io" where
  "category_rows e entry =
     (case array_from e (snd entry) of
        Inl err \<Rightarrow> throw err
      | Inr files \<Rightarrow> each file_row files)"

definition top_rows :: "engine \<Rightarrow> jsval \<Rightarrow> string \<Rightarrow> link_row list io" where
  "top_rows e ups k =
     (if truthy_rt (member e ups k)
      then and_then (each (category_rows e) (object_entries (member e ups k)))
             (\<lambda>rows. ret (concat rows))
      else ret [])"

text \<open>
  The rows of one sub-module: \<open>data.uploads[sub] ? Object.values(data.uploads[sub]
  .communication).map(...) : <span>No communication docs</span>\<close>.
\<close>

definition sub_rows :: "engine \<Rightarrow> jsval \<Rightarrow> jsval \<Rightarrow> link_row list io" where
  "sub_rows e ups sub =
     (if truthy_rt (member e ups (to_string e sub))
      then (case object_values
                   (case member e ups (to_string e sub) of
                      Value v \<Rightarrow> of_option (field v ''communication'')
                    | _ \<Rightarrow> Undefined) of
              Inl err \<Rightarrow> throw err
            | Inr files \<Rightarrow> each file_row (map Value files))
      else ret [])"

text \<open>
  React accepts strings, numbers, booleans, \<open>null\<close>, \<open>undefined\<close> and arrays of these as
  the children \<open>{data.topModule}\<close> and \<open>{sub}\<close>, and throws for an object.
\<close>

fun valid_child :: "jsval \<Rightarrow> bool" where
  "valid_child (JObj ps) = False"
| "valid_child (JArr xs) = list_all valid_child xs"
| "valid_child v = True"

fun valid_children :: "jsval option \<Rightarrow> jsval list \<Rightarrow> bool" where
  "valid_children None subs = list_all valid_child subs"
| "valid_children (Some t) subs = (valid_child t \<and> list_all valid_child subs)"

datatype view = NoData | Page "link_row list" "link_row list"

text \<open>
  The render of \<open>CodeViewer\<close> for a truthy \<open>data\<close>, in the order of evaluation:
  \<open>data.uploads[data.topModule]\<close> throws when \<open>data.uploads\<close> is \<open>undefined\<close> or \<open>null\<close>;
  the rows of the top module; \<open>data.subModules.map\<close>, which throws unless
  \<open>data.subModules\<close> is an array; the rows of each sub-module; and, when the function has
  returned, React's check of the children.
\<close>

definition render_data :: "engine \<Rightarrow> jsval \<Rightarrow> view io" where
  "render_data e data =
     (case field data ''uploads'' of
        None \<Rightarrow> throw TypeError
      | Some ups \<Rightarrow>
          if ups = JNull then throw TypeError
          else
            and_then (top_rows e ups (to_key e (field data ''topModule''))) (\<lambda>top_part.
              case field data ''subModules'' of
                Some (JArr subs) \<Rightarrow>
                  and_then (each (sub_rows e ups) subs) (\<lambda>rows.
                    if valid_children (field data ''topModule'') subs
                    then ret (Page top_part (concat rows))
                    else throw InvalidChild)
              | _ \<Rightarrow> throw TypeError))"

text \<open>\<open>if (!data) return <h3>No Upload Data Found</h3>\<close>, then the render above.\<close>

definition render_CodeViewer :: "engine \<Rightarrow> jsval option \<Rightarrow> view io" where
  "render_CodeViewer e data =
     (case data of
        None \<Rightarrow> ret NoData
      | Some d \<Rightarrow> if truthy d then render_data e d else ret NoData)"

text \<open>
  The component after mounting: the first render shows the no-data state, the effect
  runs, and the component renders again with the new \<open>data\<close>. An error thrown by the
  effect is not caught in the component.
\<close>

definition CodeViewer :: "engine \<Rightarrow> storage \<Rightarrow> view io" where
  "CodeViewer e st =
     (case CodeViewer_effect st of
        Inl err \<Rightarrow> throw err
      | Inr data \<Rightarrow> render_CodeViewer e data)"

section \<open>Downloading a generated file (\<open>downloadFile\<close> of \<open>Outputs\<close>)\<close>

text \<open>
  \<open>downloadFile(content, filename, contentType)\<close>: a \<open>Blob\<close>, its object URL, a link
  that is appended, clicked and removed, and the revocation of the URL.
\<close>

definition click_link :: "nat \<Rightarrow> string \<Rightarrow> unit io" where
  "click_link url filename = (\<lambda>b. (Inr (), b\<lparr>clicked := clicked b @ [(url, filename)]\<rparr>))"

definition downloadFile :: "string \<Rightarrow> string \<Rightarrow> string \<Rightarrow> unit io" where
  "downloadFile content filename contentType =
     and_then (createObjectURL (NewBlob content contentType)) (\<lambda>url.
     and_then (click_link url filename) (\<lambda>u.
     revokeObjectURL url))"

section \<open>The task monitor (\<open>components/StatusPanel.jsx\<close>)\<close>

text \<open>
  The component keeps \<open>status\<close>, \<open>progress\<close> and \<open>logs\<close>. Every run of its effect makes a
  closure with its own \<open>mounted\<close> flag and two intervals; closures are numbered in the
  order of their creation. A request is an \<open>axios.get\<close> that has been sent and not yet
  settled; it belongs to the closure whose interval callback sent it.
\<close>

datatype fetch_kind = StatusFetch | LogFetch

record request =
  issuer :: nat
  target :: string
  what :: fetch_kind

record interval =
  owner :: nat
  task :: string
  job :: fetch_kind
  period :: nat
  due :: nat

record panel =
  status :: "string option"
  progress :: int
  logs :: string
  deps :: "string option option"
  cleanup :: "nat option"
  mounted :: "nat \<Rightarrow> bool"
  intervals :: "interval list"
  inflight :: "request list"
  clock :: nat
  next_closure :: nat
  gone :: bool

text \<open>
  Before the first render: \<open>useState(null)\<close>, \<open>useState(0)\<close>, \<open>useState('')\<close>, no effect
  has run (\<open>deps = None\<close>), no cleanup is registered. The clock counts milliseconds.
\<close>

definition initial_panel :: panel where
  "initial_panel =
     \<lparr>status = None, progress = 0, logs = [], deps = None, cleanup = None,
      mounted = (\<lambda>c. False), intervals = [], inflight = [], clock = 0, next_closure = 0,
      gone = False\<rparr>"

text \<open>
  The cleanup of closure \<open>c\<close>:
  \<open>mounted = false; clearInterval(interval); clearInterval(logInterval)\<close>.
\<close>

definition run_cleanup :: "nat \<Rightarrow> panel \<Rightarrow> panel" where
  "run_cleanup c s =
     s\<lparr>mounted := (mounted s)(c := False),
       intervals := filter (\<lambda>i. owner i \<noteq> c) (intervals s)\<rparr>"

text \<open>
  The effect body: \<open>if(!taskId) return\<close>; otherwise \<open>mounted = true\<close>,
  \<open>setInterval(..., 1500)\<close>, \<open>setInterval(..., 2000)\<close>, and the cleanup is returned.
  \<open>setInterval\<close> runs its callback for the first time one period after the call.
\<close>

definition run_effect :: "string option \<Rightarrow> panel \<Rightarrow> panel" where
  "run_effect taskId s =
     (case taskId of
        None \<Rightarrow> s\<lparr>cleanup := None\<rparr>
      | Some tid \<Rightarrow>
          if tid = [] then s\<lparr>cleanup := None\<rparr>
          else
            let c = next_closure s
            in s\<lparr>mounted := (mounted s)(c := True),
                 intervals := intervals s @
                   [\<lparr>owner = c, task = tid, job = StatusFetch, period = 1500,
                     due = clock s + 1500\<rparr>,
                    \<lparr>owner = c, task = tid, job = LogFetch, period = 2000,
                     due = clock s + 2000\<rparr>],
                 cleanup := Some c,
                 next_closure := Suc c\<rparr>)"

definition previous_cleanup :: "panel \<Rightarrow> panel" where
  "previous_cleanup s = (case cleanup s of None \<Rightarrow> s | Some c \<Rightarrow> run_cleanup c s)"

text \<open>
  A render with the prop \<open>taskId\<close>. \<open>useEffect(..., [taskId])\<close> runs the effect after the
  first render and after every render in which \<open>taskId\<close> differs from the last run;
  before it re-runs the effect, React runs the cleanup that the last run returned.
\<close>

definition render_panel :: "string option \<Rightarrow> panel \<Rightarrow> panel" where
  "render_panel taskId s =
     (if gone s \<or> deps s = Some taskId then s
      else run_effect taskId ((previous_cleanup s)\<lparr>deps := Some taskId\<rparr>))"

text \<open>Unmounting runs the registered cleanup; the component is not rendered again.\<close>

definition unmount :: "panel \<Rightarrow> panel" where
  "unmount s = (if gone s then s else (previous_cleanup s)\<lparr>cleanup := None, gone := True\<rparr>)"

text \<open>
  An interval callback up to its \<open>await\<close>: it sends
  \<open>axios.get(`${API_BASE}/status/${taskId}`)\<close>, or the \<open>/logs/\<close> request.
\<close>

definition fire :: "interval \<Rightarrow> panel \<Rightarrow> panel" where
  "fire i s = s\<lparr>inflight := inflight s @ [\<lparr>issuer = owner i, target = task i, what = job i\<rparr>]\<rparr>"

text \<open>One millisecond passes; every interval that is due runs its callback.\<close>

definition tick :: "panel \<Rightarrow> panel" where
  "tick s =
     (let t = Suc (clock s)
      in (fold fire (filter (\<lambda>i. due i \<le> t) (intervals s)) s)
           \<lparr>clock := t,
            intervals := map (\<lambda>i. if due i \<le> t then i\<lparr>due := t + period i\<rparr> else i)
                           (intervals s)\<rparr>)"

primrec advance :: "nat \<Rightarrow> panel \<Rightarrow> panel" where
  "advance 0 s = s"
| "advance (Suc n) s = tick (advance n s)"

text \<open>
  The rest of a callback, after its request settles. A rejected request goes to the
  \<open>catch\<close>; a resolved one runs \<open>if(!mounted) return\<close> and then the state setters:
  \<open>setStatus(res.data.status); setProgress(res.data.progress || 0)\<close>, or
  \<open>setLogs(r.data.logs)\<close>.
\<close>

datatype 'a response = Rejected | Resolved 'a

record status_data =
  status_field :: string
  progress_field :: "int option"

definition status_arrives :: "request \<Rightarrow> status_data response \<Rightarrow> panel \<Rightarrow> panel" where
  "status_arrives r resp s =
     (case resp of
        Rejected \<Rightarrow> s
      | Resolved d \<Rightarrow>
          if \<not> mounted s (issuer r) then s
          else s\<lparr>status := Some (status_field d),
                 progress := (case progress_field d of
                                None \<Rightarrow> 0
                              | Some p \<Rightarrow> if p = 0 then 0 else p)\<rparr>)"

definition logs_arrive :: "request \<Rightarrow> string response \<Rightarrow> panel \<Rightarrow> panel" where
  "logs_arrive r resp s =
     (case resp of
        Rejected \<Rightarrow> s
      | Resolved l \<Rightarrow> if \<not> mounted s (issuer r) then s else s\<lparr>logs := l\<rparr>)"

text \<open>What the component shows of the task.\<close>

definition snapshot :: "panel \<Rightarrow> string option \<times> int \<times> string" where
  "snapshot s = (status s, progress s, logs s)"

text \<open>The events of a run; a settling event names the request by its place in flight.\<close>

datatype event =
  Render "string option"
| Unmount
| Tick
| StatusSettles nat "status_data response"
| LogsSettle nat "string response"

definition without :: "nat \<Rightarrow> 'a list \<Rightarrow> 'a list" where
  "without i xs = take i xs @ drop (Suc i) xs"

fun step :: "event \<Rightarrow> panel \<Rightarrow> panel" where
  "step (Render taskId) s = render_panel taskId s"
| "step Unmount s = unmount s"
| "step Tick s = tick s"
| "step (StatusSettles i resp) s =
     (if i < length (inflight s) \<and> what (inflight s ! i) = StatusFetch
      then status_arrives (inflight s ! i) resp (s\<lparr>inflight := without i (inflight s)\<rparr>)
      else s)"
| "step (LogsSettle i resp) s =
     (if i < length (inflight s) \<and> what (inflight s ! i) = LogFetch
      then logs_arrive (inflight s ! i) resp (s\<lparr>inflight := without i (inflight s)\<rparr>)
      else s)"

fun run :: "event list \<Rightarrow> panel \<Rightarrow> panel" where
  "run [] s = s"
| "run (e # es) s = run es (step e s)"

text \<open>The states of the monitor, read off the component.\<close>

datatype phase = Idle | Active | Stopped

definition phase_of :: "panel \<Rightarrow> phase" where
  "phase_of s = (if gone s then Stopped else if cleanup s = None then Idle else Active)"

section \<open>Observations on the upload page\<close>

text \<open>
  The files recorded for a module and a category; the invariant of a finalized package,
  that every key of its uploads is its top module or one of its sub-modules; the category
  keys that the inputs of the page pass to \<open>handleUpload\<close>, and the category names of the
  specification.
\<close>

definition package_keys_ok :: "upload_package \<Rightarrow> bool" where
  "package_keys_ok p =
     list_all (\<lambda>k. k = p_topModule p \<or> k \<in> set (p_subModules p)) (obj_keys (p_uploads p))"

definition files_of ::
  "js_file list js_object js_object \<Rightarrow> string \<Rightarrow> string \<Rightarrow> js_file list option" where
  "files_of ups m c = (case obj_get ups m of None \<Rightarrow> None | Some cats \<Rightarrow> obj_get cats c)"

definition spec_CategoryKey :: "string list" where
  "spec_CategoryKey =
     [''spec'', ''testbench-requirements'', ''functional-design'', ''architecture-design'',
      ''protocol'', ''uvm'', ''formal-verification'', ''assertions'', ''communication'']"

definition page_categories :: "string list" where
  "page_categories =
     [''spec'', ''tb'', ''func'', ''arch'', ''protocol'', ''uvm'', ''fv'', ''sva'',
      ''communication'']"

section \<open>Example runs of the upload page\<close>

text \<open>
  States reached from the initial state by the handlers: two sub-modules with the same
  name; an upload made while the top module was still called \<open>A\<close>; a top-module name
  typed with blanks around it; a sub-module name that is one blank; the scenario of the
  specification; a page whose file inputs were left with empty selections. The storage
  left by submitting the scenario; a storage that holds the document of another submit
  and, under another key, the document of another page; the storage left by submitting
  the empty selections.
\<close>

definition spec_file :: js_file where
  "spec_file = \<lparr>name = ''alu_spec.md'', size_bytes = 2048\<rparr>"

definition duplicate_names_state :: upload_state where
  "duplicate_names_state =
     handleSubModuleNameChange 1 ''ALU'' (handleSubModuleNameChange 0 ''ALU''
       (handleNumSubModulesChange (Some 2) (setTopModule ''CPU'' initial_upload)))"

definition renamed_top_state :: upload_state where
  "renamed_top_state =
     handleSubModuleNameChange 0 ''FSM'' (setTopModule ''AB''
       (top_onUpload ''spec'' [spec_file] (setTopModule ''A'' initial_upload)))"

definition padded_top_state :: upload_state where
  "padded_top_state =
     handleSubModuleNameChange 0 ''FSM'' (setTopModule '' ALU '' initial_upload)"

definition scenario_state :: upload_state where
  "scenario_state =
     top_onUpload ''spec'' [spec_file]
       (handleSubModuleNameChange 1 ''Decoder'' (handleSubModuleNameChange 0 ''FSM''
         (handleNumSubModulesChange (Some 2) (setTopModule ''ALU'' initial_upload))))"

definition earlier_storage :: storage where
  "earlier_storage = storage_after (handleSubmit scenario_state Map.empty)"

definition blank_name_state :: upload_state where
  "blank_name_state =
     handleSubModuleNameChange 0 '' '' (setTopModule ''ALU'' initial_upload)"

definition empty_lists_state :: upload_state where
  "empty_lists_state =
     sub_onUpload 0 [] (top_onUpload ''spec'' []
       (handleSubModuleNameChange 0 ''FSM'' (setTopModule ''ALU'' initial_upload)))"

definition other_storage :: storage where
  "other_storage =
     (storage_after (handleSubmit padded_top_state Map.empty))
       (''generationResult'' \<mapsto> JsonText (JObj []))"

definition empty_lists_storage :: storage where
  "empty_lists_storage = storage_after (handleSubmit empty_lists_state Map.empty)"

section \<open>Observations on the code viewer\<close>

text \<open>
  An action is quiet when it leaves the browser as it was whenever it returns, and
  creates, revokes and releases no object URL when it throws; a view is never the
  no-data state when no run of it returns that state.
\<close>

definition quiet :: "'a io \<Rightarrow> bool" where
  "quiet m =
     (\<forall>b. case m b of
            (Inr x, b') \<Rightarrow> b' = b
          | (Inl err, b') \<Rightarrow>
              creations b' = creations b \<and> revocations b' = revocations b \<and>
              live_urls b' = live_urls b)"

definition never_no_data :: "view io \<Rightarrow> bool" where
  "never_no_data m = (\<forall>b. fst (m b) \<noteq> Inr NoData)"

text \<open>
  Examples: the storage of the earlier submit with its document cut off after the first
  character, and with the document \<open>{}\<close> in its place.
\<close>

definition corrupted_storage :: storage where
  "corrupted_storage = earlier_storage(''uploadData'' \<mapsto> OtherText ''{'')"

definition shapeless_storage :: storage where
  "shapeless_storage = earlier_storage(''uploadData'' \<mapsto> JsonText (JObj []))"

section \<open>Observations on the task monitor\<close>

text \<open>
  A closure has been cleaned up when its flag is off and its number is already taken;
  the cleanup that React holds belongs to a closure that exists, of a component that is
  still there. The requests that the callbacks of closure \<open>c\<close> send for the task \<open>h\<close>.
\<close>

definition cleaned_up :: "nat \<Rightarrow> panel \<Rightarrow> bool" where
  "cleaned_up c s = (\<not> mounted s c \<and> c < next_closure s)"

definition cleanup_known :: "panel \<Rightarrow> bool" where
  "cleanup_known s = (case cleanup s of None \<Rightarrow> True | Some c \<Rightarrow> c < next_closure s \<and> \<not> gone s)"

definition status_request :: "nat \<Rightarrow> string \<Rightarrow> request" where
  "status_request c h = \<lparr>issuer = c, target = h, what = StatusFetch\<rparr>"

definition log_request :: "nat \<Rightarrow> string \<Rightarrow> request" where
  "log_request c h = \<lparr>issuer = c, target = h, what = LogFetch\<rparr>"

text \<open>
  Examples, all runs from the initial panel: the panel right after its first render with
  the task \<open>t-1\<close>; the same panel 1500 ms later, with its first status request in
  flight; that panel rendered again with the task \<open>t-2\<close>; a reply that reports
  completion; the panel 2000 ms after its first render, with its first log request in
  flight too; that panel rendered again with the task \<open>t-2\<close>; and that panel, not
  rendered again, after its first log request has resolved with \<open>init\<close> and another
  2000 ms have passed, with its second log request in flight.
\<close>

definition started_panel :: panel where
  "started_panel = render_panel (Some ''t-1'') initial_panel"

definition polling_panel :: panel where
  "polling_panel = run (Render (Some ''t-1'') # replicate 1500 Tick) initial_panel"

definition rebound_panel :: panel where
  "rebound_panel = render_panel (Some ''t-2'') polling_panel"

definition completed_reply :: "status_data response" where
  "completed_reply = Resolved \<lparr>status_field = ''completed'', progress_field = Some 100\<rparr>"

definition logging_panel :: panel where
  "logging_panel = run (Render (Some ''t-1'') # replicate 2000 Tick) initial_panel"

definition late_panel :: panel where
  "late_panel = run [Render (Some ''t-2'')] logging_panel"

definition reading_panel :: panel where
  "reading_panel = run (LogsSettle 1 (Resolved ''init'') # replicate 2000 Tick) logging_panel"

section \<open>Properties of the upload page\<close>

subsection \<open>The example states\<close>

lemma duplicate_names_state_eq:
  "duplicate_names_state =
     \<lparr>topModule = ''CPU'', numSubModules = 2, subModuleNames = [''ALU'', ''ALU''],
      uploads = [], submitStatus = []\<rparr>"
  by (simp add: duplicate_names_state_def handleSubModuleNameChange_def
      handleNumSubModulesChange_def setTopModule_def initial_upload_def)

lemma renamed_top_state_eq:
  "renamed_top_state =
     \<lparr>topModule = ''AB'', numSubModules = 1, subModuleNames = [''FSM''],
      uploads = [(''A'', [(''spec'', [spec_file])])], submitStatus = []\<rparr>"
  by (simp add: renamed_top_state_def handleSubModuleNameChange_def top_onUpload_def
      handleUpload_def obj_put_def obj_get_def setTopModule_def initial_upload_def)

lemma scenario_state_eq:
  "scenario_state =
     \<lparr>topModule = ''ALU'', numSubModules = 2, subModuleNames = [''FSM'', ''Decoder''],
      uploads = [(''ALU'', [(''spec'', [spec_file])])], submitStatus = []\<rparr>"
  by (simp add: scenario_state_def handleSubModuleNameChange_def top_onUpload_def
      handleUpload_def obj_put_def obj_get_def setTopModule_def initial_upload_def
      handleNumSubModulesChange_def)

lemma padded_top_state_eq:
  "padded_top_state =
     \<lparr>topModule = '' ALU '', numSubModules = 1, subModuleNames = [''FSM''], uploads = [],
      submitStatus = []\<rparr>"
  by (simp add: padded_top_state_def handleSubModuleNameChange_def setTopModule_def
      initial_upload_def)

lemma blank_name_state_eq:
  "blank_name_state =
     \<lparr>topModule = ''ALU'', numSubModules = 1, subModuleNames = ['' ''], uploads = [],
      submitStatus = []\<rparr>"
  by (simp add: blank_name_state_def handleSubModuleNameChange_def setTopModule_def
      initial_upload_def)

lemma empty_lists_state_eq:
  "empty_lists_state =
     \<lparr>topModule = ''ALU'', numSubModules = 1, subModuleNames = [''FSM''],
      uploads = [(''ALU'', [(''spec'', [])]), (''FSM'', [(''communication'', [])])],
      submitStatus = []\<rparr>"
  by (simp add: empty_lists_state_def handleSubModuleNameChange_def top_onUpload_def
      sub_onUpload_def handleUpload_def obj_put_def obj_get_def setTopModule_def
      initial_upload_def is_array_index_def is_digit_def)

subsection \<open>Plain objects\<close>

lemma map_of_obj_add:
  "k \<notin> set (map fst obj) \<Longrightarrow> map_of (obj_add k v obj) k' = (if k' = k then Some v else map_of obj k')"
proof (induction obj)
  case Nil
  then show ?case by simp
next
  case (Cons p obj)
  obtain a b where p: "p = (a, b)" by (cases p)
  from Cons.prems p have "a \<noteq> k" and "k \<notin> set (map fst obj)" by auto
  with Cons.IH p show ?case by auto
qed

lemma map_of_replace:
  "map_of (map (\<lambda>(k', v'). if k' = k then (k', v) else (k', v')) obj) k' =
     (if k' = k \<and> k \<in> set (map fst obj) then Some v else map_of obj k')"
proof (induction obj)
  case Nil
  then show ?case by simp
next
  case (Cons p obj)
  obtain a b where p: "p = (a, b)" by (cases p)
  with Cons.IH show ?case by (cases "a = k") (force simp: image_iff)+
qed

lemma obj_get_obj_put: "obj_get (obj_put k v obj) k' = (if k' = k then Some v else obj_get obj k')"
proof (cases "k \<in> fst ` set obj")
  case True
  then show ?thesis by (simp add: obj_get_def obj_put_def map_of_replace)
next
  case False
  then show ?thesis by (simp add: obj_get_def obj_put_def map_of_obj_add)
qed

lemma keys_obj_add: "set (map fst (obj_add k v obj)) = insert k (set (map fst obj))"
proof (induction obj)
  case Nil
  then show ?case by simp
next
  case (Cons p obj)
  obtain a b where p: "p = (a, b)" by (cases p)
  with Cons.IH show ?case by (simp del: set_map) blast
qed

lemma keys_replace: "map fst (map (\<lambda>(k', v'). if k' = k then (k', v) else (k', v')) obj) = map fst obj"
  by (induction obj) (simp_all add: case_prod_beta)

lemma obj_keys_obj_put: "set (obj_keys (obj_put k v obj)) = insert k (set (obj_keys obj))"
proof (cases "k \<in> fst ` set obj")
  case True
  then have "insert k (set (map fst obj)) = set (map fst obj)" by auto
  with True show ?thesis unfolding obj_keys_def obj_put_def by (simp only: keys_replace if_True)
next
  case False
  then show ?thesis unfolding obj_keys_def obj_put_def by (simp only: keys_obj_add if_False)
qed

subsection \<open>The three outcomes of \<open>handleSubmit\<close>\<close>

lemma handleSubmit_rejects:
  "trim (topModule s) = [] \<or> (\<exists>n \<in> set (subModuleNames s). trim n = []) \<Longrightarrow>
   handleSubmit s st =
     \<lparr>alerted = Some (if trim (topModule s) = [] then ''Enter top module name''
                      else ''Enter all sub-module names''),
      built = None, state_after = s, storage_after = st, navigation = None\<rparr>"
  by (auto simp: handleSubmit_def list_ex_iff)

lemma handleSubmit_accepts:
  "trim (topModule s) \<noteq> [] \<Longrightarrow> \<forall>n \<in> set (subModuleNames s). trim n \<noteq> [] \<Longrightarrow>
   handleSubmit s st =
     \<lparr>alerted = None,
      built = Some \<lparr>p_topModule = topModule s, p_subModules = subModuleNames s,
                    p_uploads = uploads s\<rparr>,
      state_after = s\<lparr>submitStatus := ''Submitted successfully! Redirecting...''\<rparr>,
      storage_after = st(''uploadData'' \<mapsto> JSON_stringify (package_json
         \<lparr>p_topModule = topModule s, p_subModules = subModuleNames s, p_uploads = uploads s\<rparr>)),
      navigation = Some (1000, ''/codeview'')\<rparr>"
  by (auto simp: handleSubmit_def list_ex_iff Let_def)

lemma handleSubmit_built:
  "built (handleSubmit s st) = Some pkg \<Longrightarrow>
   trim (topModule s) \<noteq> [] \<and> (\<forall>n \<in> set (subModuleNames s). trim n \<noteq> []) \<and>
   pkg = \<lparr>p_topModule = topModule s, p_subModules = subModuleNames s, p_uploads = uploads s\<rparr>"
  by (auto simp: handleSubmit_def list_ex_iff Let_def split: if_splits)

subsection \<open>Sub-module names at submit\<close>

text \<open>
  C2, as stated, fails: a state with two sub-modules called \<open>ALU\<close> has a duplicate name,
  yet \<open>handleSubmit\<close> shows no alert, builds the package and replaces the document
  stored under \<open>uploadData\<close> by the earlier submit.
\<close>

theorem duplicate_names_accepted:
  "\<not> distinct (subModuleNames duplicate_names_state) \<and>
   alerted (handleSubmit duplicate_names_state earlier_storage) = None \<and>
   built (handleSubmit duplicate_names_state earlier_storage) =
     Some \<lparr>p_topModule = ''CPU'', p_subModules = [''ALU'', ''ALU''], p_uploads = []\<rparr> \<and>
   storage_after (handleSubmit duplicate_names_state earlier_storage) ''uploadData'' \<noteq>
     earlier_storage ''uploadData''"
  by (simp add: duplicate_names_state_eq earlier_storage_def scenario_state_eq handleSubmit_def
      trim_def is_js_space_def Let_def JSON_stringify_def package_json_def)

text \<open>
  C2, amended: when some sub-module name is empty after trimming, \<open>handleSubmit\<close> shows
  an alert (the top-module alert when that name is empty after trimming too, the
  sub-module alert otherwise), builds no package, and leaves the storage and the state of
  the page as they were. Equal names are not checked.
\<close>

theorem empty_sub_module_name_rejected:
  assumes "\<exists>n \<in> set (subModuleNames s). trim n = []"
  shows "alerted (handleSubmit s st) =
           Some (if trim (topModule s) = [] then ''Enter top module name''
                 else ''Enter all sub-module names'') \<and>
         built (handleSubmit s st) = None \<and>
         storage_after (handleSubmit s st) = st \<and>
         state_after (handleSubmit s st) = s"
  using assms by (simp add: handleSubmit_rejects)

text \<open>
  C2, witness: with the top module \<open>CPU\<close> and the one initial, empty sub-module name,
  the submit is refused and the earlier document stays.
\<close>

theorem empty_sub_module_name_rejected_witness:
  "(\<exists>n \<in> set (subModuleNames (setTopModule ''CPU'' initial_upload)). trim n = []) \<and>
   alerted (handleSubmit (setTopModule ''CPU'' initial_upload) earlier_storage) =
     Some ''Enter all sub-module names'' \<and>
   built (handleSubmit (setTopModule ''CPU'' initial_upload) earlier_storage) = None \<and>
   storage_after (handleSubmit (setTopModule ''CPU'' initial_upload) earlier_storage) =
     earlier_storage"
proof -
  have h: "\<exists>n \<in> set (subModuleNames (setTopModule ''CPU'' initial_upload)). trim n = []"
    by (simp add: setTopModule_def initial_upload_def trim_def)
  have t: "trim (topModule (setTopModule ''CPU'' initial_upload)) \<noteq> []"
    by (simp add: setTopModule_def initial_upload_def trim_def is_js_space_def)
  show ?thesis
    using h t empty_sub_module_name_rejected [OF h, of earlier_storage] by simp
qed

subsection \<open>A valid submit\<close>

text \<open>
  C6, as stated, fails: with the top module \<open>ALU\<close> and the single sub-module name
  \<open>' '\<close>, which is not empty and is unique, the submit shows the sub-module alert, builds
  no package and leaves the storage as it was.
\<close>

theorem blank_name_refused:
  "trim (topModule blank_name_state) = ''ALU'' \<and>
   subModuleNames blank_name_state = ['' ''] \<and>
   distinct (subModuleNames blank_name_state) \<and>
   '' '' \<noteq> [] \<and>
   alerted (handleSubmit blank_name_state other_storage) = Some ''Enter all sub-module names'' \<and>
   built (handleSubmit blank_name_state other_storage) = None \<and>
   storage_after (handleSubmit blank_name_state other_storage) = other_storage"
  by (simp add: blank_name_state_eq handleSubmit_def trim_def is_js_space_def)

text \<open>
  C6, amended: with a top-module name that is not empty after trimming and \<open>N \<ge> 1\<close>
  distinct sub-module names, none empty after trimming, the submit shows no alert and
  builds the package of the page, whose sub-module list has length \<open>N\<close>; the storage
  afterwards is the old storage with \<open>uploadData\<close> replaced by the JSON text of exactly
  this package: its top-module name, its \<open>N\<close> sub-module names in order, and its
  uploads, each file written as \<open>{}\<close>. No other key changes, and nothing of the
  document stored before remains.
\<close>

theorem handleSubmit_valid:
  assumes "trim (topModule s) \<noteq> []"
    and "subModuleNames s \<noteq> []"
    and "distinct (subModuleNames s)"
    and "\<forall>n \<in> set (subModuleNames s). trim n \<noteq> []"
  shows "alerted (handleSubmit s st) = None \<and>
         (\<exists>pkg. built (handleSubmit s st) = Some pkg \<and>
                p_topModule pkg = topModule s \<and>
                p_subModules pkg = subModuleNames s \<and>
                p_uploads pkg = uploads s \<and>
                length (p_subModules pkg) = length (subModuleNames s)) \<and>
         storage_after (handleSubmit s st) =
           st(''uploadData'' \<mapsto>
                JsonText (JObj
                  [(''topModule'', JStr (topModule s)),
                   (''subModules'', JArr (map JStr (subModuleNames s))),
                   (''uploads'',
                      JObj (map (\<lambda>(m, cats).
                                  (m, JObj (map (\<lambda>(c, fs).
                                                  (c, JArr (replicate (length fs) (JObj []))))
                                             cats)))
                             (uploads s)))]))"
proof -
  have r: "map (\<lambda>f. JObj []) fs = replicate (length fs) (JObj [])" for fs :: "js_file list"
    by (induction fs) simp_all
  show ?thesis
    using assms
    by (simp add: handleSubmit_accepts JSON_stringify_def package_json_def r)
qed

text \<open>
  C6, witness: the scenario with the top module \<open>ALU\<close> and the sub-modules \<open>FSM\<close> and
  \<open>Decoder\<close>, submitted over a storage that holds another package and the document of
  another page: the other package is replaced, the other document stays.
\<close>

theorem handleSubmit_valid_witness:
  "trim (topModule scenario_state) \<noteq> [] \<and>
   subModuleNames scenario_state = [''FSM'', ''Decoder''] \<and>
   distinct (subModuleNames scenario_state) \<and>
   trim ''FSM'' \<noteq> [] \<and> trim ''Decoder'' \<noteq> [] \<and>
   alerted (handleSubmit scenario_state other_storage) = None \<and>
   built (handleSubmit scenario_state other_storage) =
     Some \<lparr>p_topModule = ''ALU'', p_subModules = [''FSM'', ''Decoder''],
           p_uploads = [(''ALU'', [(''spec'', [spec_file])])]\<rparr> \<and>
   other_storage ''uploadData'' =
     Some (JsonText (JObj [(''topModule'', JStr '' ALU ''),
                           (''subModules'', JArr [JStr ''FSM'']),
                           (''uploads'', JObj [])])) \<and>
   storage_after (handleSubmit scenario_state other_storage) ''uploadData'' =
     Some (JsonText (JObj [(''topModule'', JStr ''ALU''),
                           (''subModules'', JArr [JStr ''FSM'', JStr ''Decoder'']),
                           (''uploads'', JObj [(''ALU'', JObj [(''spec'', JArr [JObj []])])])])) \<and>
   storage_after (handleSubmit scenario_state other_storage) ''generationResult'' =
     Some (JsonText (JObj []))"
proof -
  have a: "trim (topModule scenario_state) \<noteq> []"
    by (simp add: scenario_state_eq trim_def is_js_space_def)
  have b: "subModuleNames scenario_state \<noteq> []"
    by (simp add: scenario_state_eq)
  have c: "distinct (subModuleNames scenario_state)"
    by (simp add: scenario_state_eq)
  have d: "\<forall>n \<in> set (subModuleNames scenario_state). trim n \<noteq> []"
    by (simp add: scenario_state_eq trim_def is_js_space_def)
  have o: "other_storage =
     [''uploadData'' \<mapsto> JsonText (JObj [(''topModule'', JStr '' ALU ''),
                                            (''subModules'', JArr [JStr ''FSM'']),
                                            (''uploads'', JObj [])]),
      ''generationResult'' \<mapsto> JsonText (JObj [])]"
    by (simp add: other_storage_def padded_top_state_eq handleSubmit_def trim_def
        is_js_space_def Let_def JSON_stringify_def package_json_def)
  show ?thesis
    using a c d handleSubmit_valid [OF a b c d, of other_storage]
    by (auto simp: scenario_state_eq o)
qed

subsection \<open>The top-module name\<close>

text \<open>
  C9, as stated, fails: \<open>setTopModule\<close> stores the name with its blanks, and the package
  built from it carries them.
\<close>

theorem padded_top_module_kept:
  "trim '' ALU '' = ''ALU'' \<and>
   topModule (setTopModule '' ALU '' initial_upload) = '' ALU '' \<and>
   topModule (setTopModule '' ALU '' initial_upload) \<noteq> trim '' ALU '' \<and>
   built (handleSubmit padded_top_state Map.empty) =
     Some \<lparr>p_topModule = '' ALU '', p_subModules = [''FSM''], p_uploads = []\<rparr>"
  by (simp add: padded_top_state_eq setTopModule_def initial_upload_def handleSubmit_def
      trim_def is_js_space_def Let_def)

text \<open>
  C9, amended: \<open>setTopModule(name)\<close> stores the name as it was typed and changes nothing
  else; a name that is empty after trimming fails nothing at that moment, and makes the
  next submit stop with the alert \<open>Enter top module name\<close>, with no package and the
  storage unchanged; the top module of a built package is the stored name, which is not
  empty after trimming.
\<close>

theorem setTopModule_stores_input:
  "setTopModule v s = s\<lparr>topModule := v\<rparr> \<and>
   (trim v = [] \<longrightarrow>
      alerted (handleSubmit (setTopModule v s) st) = Some ''Enter top module name'' \<and>
      built (handleSubmit (setTopModule v s) st) = None \<and>
      storage_after (handleSubmit (setTopModule v s) st) = st) \<and>
   (\<forall>pkg. built (handleSubmit s st) = Some pkg \<longrightarrow>
      p_topModule pkg = topModule s \<and> trim (p_topModule pkg) \<noteq> [])"
proof (intro conjI impI allI)
  show "setTopModule v s = s\<lparr>topModule := v\<rparr>"
    by (simp add: setTopModule_def)
next
  assume e: "trim v = []"
  then have "trim (topModule (setTopModule v s)) = []"
    by (simp add: setTopModule_def)
  then have r: "handleSubmit (setTopModule v s) st =
     \<lparr>alerted = Some ''Enter top module name'', built = None,
      state_after = setTopModule v s, storage_after = st, navigation = None\<rparr>"
    by (simp add: handleSubmit_rejects)
  show "alerted (handleSubmit (setTopModule v s) st) = Some ''Enter top module name''"
    by (simp add: r)
  show "built (handleSubmit (setTopModule v s) st) = None"
    by (simp add: r)
  show "storage_after (handleSubmit (setTopModule v s) st) = st"
    by (simp add: r)
next
  fix pkg
  assume b: "built (handleSubmit s st) = Some pkg"
  from handleSubmit_built [OF b] show "p_topModule pkg = topModule s" by simp
  from handleSubmit_built [OF b] show "trim (p_topModule pkg) \<noteq> []" by simp
qed

text \<open>
  C9, witness: two blanks typed as the top-module name are stored and refused at submit;
  the name \<open>ALU\<close> with a blank on each side is built into the package as typed.
\<close>

theorem setTopModule_stores_input_witness:
  "trim ''  '' = [] \<and>
   topModule (setTopModule ''  '' padded_top_state) = ''  '' \<and>
   alerted (handleSubmit (setTopModule ''  '' padded_top_state) earlier_storage) =
     Some ''Enter top module name'' \<and>
   storage_after (handleSubmit (setTopModule ''  '' padded_top_state) earlier_storage) =
     earlier_storage \<and>
   built (handleSubmit padded_top_state earlier_storage) =
     Some \<lparr>p_topModule = '' ALU '', p_subModules = [''FSM''], p_uploads = []\<rparr> \<and>
   trim '' ALU '' \<noteq> []"
proof -
  have e: "trim ''  '' = []"
    by (simp add: trim_def is_js_space_def)
  have b: "built (handleSubmit padded_top_state earlier_storage) =
     Some \<lparr>p_topModule = '' ALU '', p_subModules = [''FSM''], p_uploads = []\<rparr>"
    by (simp add: padded_top_state_eq handleSubmit_def trim_def is_js_space_def Let_def)
  show ?thesis
    using e b setTopModule_stores_input [of "''  ''" padded_top_state earlier_storage]
    by (auto simp: padded_top_state_eq)
qed

subsection \<open>Categories\<close>

text \<open>
  C7, as stated, fails: the input for the testbench requirements of the top module
  passes the category \<open>tb\<close>, which is none of the names of the enumeration, and
  \<open>handleUpload\<close> records the files under it.
\<close>

theorem page_category_accepted:
  "''tb'' \<in> set page_categories \<and> ''tb'' \<notin> set spec_CategoryKey \<and>
   uploads (top_onUpload ''tb'' [spec_file] (setTopModule ''ALU'' initial_upload)) =
     [(''ALU'', [(''tb'', [spec_file])])] \<and>
   uploads (top_onUpload ''tb'' [spec_file] (setTopModule ''ALU'' initial_upload)) \<noteq>
     uploads (setTopModule ''ALU'' initial_upload)"
  by (simp add: spec_CategoryKey_def page_categories_def top_onUpload_def handleUpload_def
      setTopModule_def initial_upload_def obj_get_def obj_put_def is_array_index_def
      is_digit_def)

lemma files_of_handleUpload:
  "files_of (uploads (handleUpload m c fs s)) m' c' =
     (if m' = m \<and> c' = c then Some fs else files_of (uploads s) m' c')"
  by (cases "obj_get (uploads s) m")
     (simp_all add: files_of_def handleUpload_def Let_def obj_get_obj_put, simp_all add: obj_get_def)

text \<open>
  C7, amended: \<open>handleUpload(module, category, files)\<close> checks no category: for every
  category string, the keys that the page passes and any other, it replaces the file
  list of that module and category by \<open>files\<close>, and leaves every other file list and the
  module names unchanged.
\<close>

theorem handleUpload_any_category:
  "files_of (uploads (handleUpload m c fs s)) m' c' =
     (if m' = m \<and> c' = c then Some fs else files_of (uploads s) m' c') \<and>
   topModule (handleUpload m c fs s) = topModule s \<and>
   subModuleNames (handleUpload m c fs s) = subModuleNames s"
  by (simp add: files_of_handleUpload) (simp add: handleUpload_def Let_def)

text \<open>
  C7, witness: in the scenario, an upload under \<open>tb\<close> for the top module \<open>ALU\<close> is
  recorded, the files under \<open>spec\<close> stay, and nothing was recorded under \<open>tb\<close> before.
\<close>

theorem handleUpload_any_category_witness:
  "top_onUpload ''tb'' [spec_file] scenario_state =
     handleUpload ''ALU'' ''tb'' [spec_file] scenario_state \<and>
   files_of (uploads (handleUpload ''ALU'' ''tb'' [spec_file] scenario_state)) ''ALU'' ''tb''
     = Some [spec_file] \<and>
   files_of (uploads (handleUpload ''ALU'' ''tb'' [spec_file] scenario_state)) ''ALU'' ''spec''
     = Some [spec_file] \<and>
   files_of (uploads scenario_state) ''ALU'' ''tb'' = None"
  using handleUpload_any_category
          [of "''ALU''" "''tb''" "[spec_file]" scenario_state "''ALU''" "''tb''"]
        handleUpload_any_category
          [of "''ALU''" "''tb''" "[spec_file]" scenario_state "''ALU''" "''spec''"]
  by (simp add: scenario_state_eq files_of_def obj_get_def top_onUpload_def)

subsection \<open>The keys of the uploads\<close>

text \<open>
  C3, as stated, fails: files uploaded while the top module was called \<open>A\<close> stay under
  the key \<open>A\<close> when the name is typed on to \<open>AB\<close>; the built package has the key \<open>A\<close>,
  which is neither its top module nor one of its sub-modules.
\<close>

theorem stale_upload_key_survives:
  "built (handleSubmit renamed_top_state Map.empty) =
     Some \<lparr>p_topModule = ''AB'', p_subModules = [''FSM''],
           p_uploads = [(''A'', [(''spec'', [spec_file])])]\<rparr> \<and>
   \<not> package_keys_ok \<lparr>p_topModule = ''AB'', p_subModules = [''FSM''],
                        p_uploads = [(''A'', [(''spec'', [spec_file])])]\<rparr>"
  by (simp add: renamed_top_state_eq handleSubmit_def trim_def is_js_space_def Let_def
      package_keys_ok_def obj_keys_def)

text \<open>
  C3, amended: a built package carries the uploads of the page unfiltered, so it satisfies
  the key invariant exactly when every key of the page's uploads is the top-module name
  or a sub-module name at the moment of the submit; and \<open>handleUpload\<close> adds the module
  name it is called with to the keys, and no other.
\<close>

theorem package_uploads_unfiltered:
  "(built (handleSubmit s st) = Some pkg \<longrightarrow>
      p_uploads pkg = uploads s \<and>
      (package_keys_ok pkg \<longleftrightarrow>
         list_all (\<lambda>k. k = topModule s \<or> k \<in> set (subModuleNames s)) (obj_keys (uploads s)))) \<and>
   set (obj_keys (uploads (handleUpload m c fs s))) = insert m (set (obj_keys (uploads s)))"
proof (intro conjI impI)
  assume b: "built (handleSubmit s st) = Some pkg"
  from handleSubmit_built [OF b] show "p_uploads pkg = uploads s" by simp
  from handleSubmit_built [OF b]
  show "package_keys_ok pkg \<longleftrightarrow>
     list_all (\<lambda>k. k = topModule s \<or> k \<in> set (subModuleNames s)) (obj_keys (uploads s))"
    by (simp add: package_keys_ok_def)
next
  show "set (obj_keys (uploads (handleUpload m c fs s))) = insert m (set (obj_keys (uploads s)))"
    by (simp add: handleUpload_def Let_def obj_keys_obj_put)
qed

text \<open>
  C3, witness: the scenario builds a package that satisfies the invariant; an upload for
  the sub-module \<open>FSM\<close> adds the key \<open>FSM\<close>.
\<close>

theorem package_uploads_unfiltered_witness:
  "built (handleSubmit scenario_state Map.empty) =
     Some \<lparr>p_topModule = ''ALU'', p_subModules = [''FSM'', ''Decoder''],
           p_uploads = [(''ALU'', [(''spec'', [spec_file])])]\<rparr> \<and>
   package_keys_ok \<lparr>p_topModule = ''ALU'', p_subModules = [''FSM'', ''Decoder''],
                    p_uploads = [(''ALU'', [(''spec'', [spec_file])])]\<rparr> \<and>
   set (obj_keys (uploads (handleUpload ''FSM'' ''communication'' [spec_file] scenario_state))) =
     {''FSM'', ''ALU''}"
proof -
  have b: "built (handleSubmit scenario_state Map.empty) =
     Some \<lparr>p_topModule = ''ALU'', p_subModules = [''FSM'', ''Decoder''],
           p_uploads = [(''ALU'', [(''spec'', [spec_file])])]\<rparr>"
    by (simp add: scenario_state_eq handleSubmit_def trim_def is_js_space_def Let_def)
  show ?thesis
    using b package_uploads_unfiltered [of scenario_state Map.empty
        "\<lparr>p_topModule = ''ALU'', p_subModules = [''FSM'', ''Decoder''],
          p_uploads = [(''ALU'', [(''spec'', [spec_file])])]\<rparr>"
        "''FSM''" "''communication''" "[spec_file]"]
    by (simp add: scenario_state_eq obj_keys_def)
qed

section \<open>Properties of the code viewer\<close>

subsection \<open>The stored examples\<close>

lemma earlier_storage_eq:
  "earlier_storage =
     [''uploadData'' \<mapsto>
        JsonText (JObj [(''topModule'', JStr ''ALU''),
                        (''subModules'', JArr [JStr ''FSM'', JStr ''Decoder'']),
                        (''uploads'', JObj [(''ALU'', JObj [(''spec'', JArr [JObj []])])])])]"
  by (simp add: earlier_storage_def scenario_state_eq handleSubmit_def trim_def
      is_js_space_def Let_def JSON_stringify_def package_json_def)

lemma empty_lists_storage_eq:
  "empty_lists_storage =
     [''uploadData'' \<mapsto>
        JsonText (JObj [(''topModule'', JStr ''ALU''),
                        (''subModules'', JArr [JStr ''FSM'']),
                        (''uploads'',
                           JObj [(''ALU'', JObj [(''spec'', JArr [])]),
                                 (''FSM'', JObj [(''communication'', JArr [])])])])]"
  by (simp add: empty_lists_storage_def empty_lists_state_eq handleSubmit_def trim_def
      is_js_space_def Let_def JSON_stringify_def package_json_def)

lemma empty_lists_view:
  "CodeViewer e empty_lists_storage fresh_browser = (Inr (Page [] []), fresh_browser)"
  by (simp add: empty_lists_storage_eq CodeViewer_def CodeViewer_effect_def
      render_CodeViewer_def render_data_def field_def obj_get_def top_rows_def member_def
      category_rows_def sub_rows_def and_then_def ret_def indexed_def)

lemma earlier_view:
  "CodeViewer e earlier_storage fresh_browser =
     (Inl TypeError, fresh_browser\<lparr>url_log := [Refused]\<rparr>)"
  by (simp add: earlier_storage_eq CodeViewer_def CodeViewer_effect_def
      render_CodeViewer_def render_data_def field_def obj_get_def top_rows_def member_def
      category_rows_def file_row_def viewURL_def createObjectURL_def and_then_def ret_def
      fresh_browser_def)

subsection \<open>A truthy value is rendered\<close>

lemma never_no_data_throw: "never_no_data (throw err)"
  by (simp add: never_no_data_def throw_def)

lemma never_no_data_and_then:
  "(\<And>x. never_no_data (f x)) \<Longrightarrow> never_no_data (and_then m f)"
  by (auto simp: never_no_data_def and_then_def split: prod.splits sum.splits)

lemma never_no_data_render_data: "never_no_data (render_data e d)"
  unfolding render_data_def
  by (auto split: option.splits jsval.splits
      intro!: never_no_data_throw never_no_data_and_then)
     (simp_all add: never_no_data_def ret_def)

lemma field_no_object: "\<forall>ps. v \<noteq> JObj ps \<Longrightarrow> field v ''uploads'' = None"
  by (cases v) (simp_all add: field_def is_array_index_def is_digit_def)

lemma render_data_needs_subModules:
  "\<forall>subs. field v ''subModules'' \<noteq> Some (JArr subs) \<Longrightarrow>
   \<exists>err. fst (render_data e v b) = Inl err"
  by (auto simp: render_data_def throw_def and_then_def
      split: option.splits jsval.splits prod.splits sum.splits)

lemma no_subModules_view:
  "fst (CodeViewer e (Map.empty(''uploadData'' \<mapsto> JsonText (JObj [(''uploads'', JObj [])])))
          fresh_browser) = Inl TypeError"
  by (simp add: CodeViewer_def CodeViewer_effect_def render_CodeViewer_def render_data_def
      field_def obj_get_def top_rows_def member_def and_then_def ret_def throw_def)

subsection \<open>Documents that are no package\<close>

text \<open>
  C4, as stated, fails: with the stored document cut off after \<open>{\<close>, \<open>JSON.parse\<close> throws
  a \<open>SyntaxError\<close> out of the mount effect; with the documents \<open>{}\<close>, \<open>[]\<close>, \<open>1\<close>, \<open>"x"\<close>
  and \<open>true\<close>, which parse and are no package, the render throws a \<open>TypeError\<close> at
  \<open>data.uploads[data.topModule]\<close>. In no case does the component end in its no-data
  state, on whatever engine.
\<close>

theorem corrupted_documents_throw:
  "\<forall>e. CodeViewer e corrupted_storage fresh_browser = (Inl SyntaxError, fresh_browser) \<and>
       CodeViewer e shapeless_storage fresh_browser = (Inl TypeError, fresh_browser) \<and>
       CodeViewer e (Map.empty(''uploadData'' \<mapsto> JsonText (JArr []))) fresh_browser =
         (Inl TypeError, fresh_browser) \<and>
       CodeViewer e (Map.empty(''uploadData'' \<mapsto> JsonText (JNum 1))) fresh_browser =
         (Inl TypeError, fresh_browser) \<and>
       CodeViewer e (Map.empty(''uploadData'' \<mapsto> JsonText (JStr ''x''))) fresh_browser =
         (Inl TypeError, fresh_browser) \<and>
       CodeViewer e (Map.empty(''uploadData'' \<mapsto> JsonText (JBool True))) fresh_browser =
         (Inl TypeError, fresh_browser)"
  by (simp add: corrupted_storage_def shapeless_storage_def CodeViewer_def
      CodeViewer_effect_def render_CodeViewer_def render_data_def field_def obj_get_def
      throw_def is_array_index_def is_digit_def)

text \<open>
  C4, amended: the component ends in its no-data state, and throws nothing, exactly when
  the stored document is absent, is the empty string, or is the JSON text of a falsy
  value. A non-empty document that \<open>JSON.parse\<close> rejects throws a \<open>SyntaxError\<close> out of
  the mount effect. A document that parses to a truthy value is rendered as a package and
  never shown as no data; the render throws a \<open>TypeError\<close> whenever the value is no
  object or has no \<open>uploads\<close> property, or \<open>null\<close> for it, and throws an error whenever
  its \<open>subModules\<close> is no array.
\<close>

theorem no_data_exactly_when_absent_or_falsy:
  "(st ''uploadData'' = None \<or> st ''uploadData'' = Some (OtherText []) \<longrightarrow>
      CodeViewer e st b = (Inr NoData, b)) \<and>
   (st ''uploadData'' = Some (JsonText v) \<and> \<not> truthy v \<longrightarrow>
      CodeViewer e st b = (Inr NoData, b)) \<and>
   (st ''uploadData'' = Some (OtherText s) \<and> s \<noteq> [] \<longrightarrow>
      CodeViewer e st b = (Inl SyntaxError, b)) \<and>
   (st ''uploadData'' = Some (JsonText v) \<and> truthy v \<longrightarrow>
      fst (CodeViewer e st b) \<noteq> Inr NoData \<and>
      ((\<forall>ps. v \<noteq> JObj ps) \<or> field v ''uploads'' = None \<or> field v ''uploads'' = Some JNull
         \<longrightarrow> fst (CodeViewer e st b) = Inl TypeError) \<and>
      ((\<forall>subs. field v ''subModules'' \<noteq> Some (JArr subs))
         \<longrightarrow> (\<exists>err. fst (CodeViewer e st b) = Inl err)))"
proof (intro conjI impI)
  assume "st ''uploadData'' = None \<or> st ''uploadData'' = Some (OtherText [])"
  then show "CodeViewer e st b = (Inr NoData, b)"
    by (auto simp: CodeViewer_def CodeViewer_effect_def render_CodeViewer_def ret_def)
next
  assume "st ''uploadData'' = Some (JsonText v) \<and> \<not> truthy v"
  then show "CodeViewer e st b = (Inr NoData, b)"
    by (simp add: CodeViewer_def CodeViewer_effect_def render_CodeViewer_def ret_def)
next
  assume "st ''uploadData'' = Some (OtherText s) \<and> s \<noteq> []"
  then show "CodeViewer e st b = (Inl SyntaxError, b)"
    by (simp add: CodeViewer_def CodeViewer_effect_def throw_def)
next
  assume a: "st ''uploadData'' = Some (JsonText v) \<and> truthy v"
  then have c: "CodeViewer e st = render_data e v"
    by (simp add: CodeViewer_def CodeViewer_effect_def render_CodeViewer_def)
  show "fst (CodeViewer e st b) \<noteq> Inr NoData"
    using never_no_data_render_data [of e v] by (simp add: c never_no_data_def)
  {
    assume "(\<forall>ps. v \<noteq> JObj ps) \<or> field v ''uploads'' = None \<or>
            field v ''uploads'' = Some JNull"
    then have "field v ''uploads'' = None \<or> field v ''uploads'' = Some JNull"
      using field_no_object by blast
    then show "fst (CodeViewer e st b) = Inl TypeError"
      by (auto simp: c render_data_def throw_def)
  }
  {
    assume "\<forall>subs. field v ''subModules'' \<noteq> Some (JArr subs)"
    then show "\<exists>err. fst (CodeViewer e st b) = Inl err"
      using render_data_needs_subModules [of v e b] by (simp add: c)
  }
qed

text \<open>
  C4, witness: on every engine, an empty storage, an empty document and the document
  \<open>null\<close> show the no-data state; the document \<open>{\<close> throws a \<open>SyntaxError\<close>; the document
  \<open>{}\<close> is truthy, has no \<open>uploads\<close> and throws a \<open>TypeError\<close>; the document
  \<open>{"uploads":{}}\<close> has no \<open>subModules\<close> and throws a \<open>TypeError\<close>; the package submitted
  with empty selections is rendered as a page.
\<close>

theorem no_data_exactly_when_absent_or_falsy_witness:
  "\<forall>e. CodeViewer e Map.empty fresh_browser = (Inr NoData, fresh_browser) \<and>
       CodeViewer e (Map.empty(''uploadData'' \<mapsto> OtherText [])) fresh_browser =
         (Inr NoData, fresh_browser) \<and>
       CodeViewer e (Map.empty(''uploadData'' \<mapsto> JsonText JNull)) fresh_browser =
         (Inr NoData, fresh_browser) \<and>
       CodeViewer e (Map.empty(''uploadData'' \<mapsto> OtherText ''{'')) fresh_browser =
         (Inl SyntaxError, fresh_browser) \<and>
       truthy (JObj []) \<and> field (JObj []) ''uploads'' = None \<and>
       fst (CodeViewer e (Map.empty(''uploadData'' \<mapsto> JsonText (JObj []))) fresh_browser) =
         Inl TypeError \<and>
       field (JObj [(''uploads'', JObj [])]) ''subModules'' = None \<and>
       fst (CodeViewer e (Map.empty(''uploadData'' \<mapsto> JsonText (JObj [(''uploads'', JObj [])])))
              fresh_browser) = Inl TypeError \<and>
       fst (CodeViewer e empty_lists_storage fresh_browser) = Inr (Page [] [])"
proof
  fix e
  have f: "field (JObj []) ''uploads'' = None"
    by (simp add: field_def obj_get_def)
  have g: "field (JObj [(''uploads'', JObj [])]) ''subModules'' = None"
    by (simp add: field_def obj_get_def)
  show "CodeViewer e Map.empty fresh_browser = (Inr NoData, fresh_browser) \<and>
       CodeViewer e (Map.empty(''uploadData'' \<mapsto> OtherText [])) fresh_browser =
         (Inr NoData, fresh_browser) \<and>
       CodeViewer e (Map.empty(''uploadData'' \<mapsto> JsonText JNull)) fresh_browser =
         (Inr NoData, fresh_browser) \<and>
       CodeViewer e (Map.empty(''uploadData'' \<mapsto> OtherText ''{'')) fresh_browser =
         (Inl SyntaxError, fresh_browser) \<and>
       truthy (JObj []) \<and> field (JObj []) ''uploads'' = None \<and>
       fst (CodeViewer e (Map.empty(''uploadData'' \<mapsto> JsonText (JObj []))) fresh_browser) =
         Inl TypeError \<and>
       field (JObj [(''uploads'', JObj [])]) ''subModules'' = None \<and>
       fst (CodeViewer e (Map.empty(''uploadData'' \<mapsto> JsonText (JObj [(''uploads'', JObj [])])))
              fresh_browser) = Inl TypeError \<and>
       fst (CodeViewer e empty_lists_storage fresh_browser) = Inr (Page [] [])"
    using f g
      no_data_exactly_when_absent_or_falsy [where st = Map.empty and b = fresh_browser and e = e]
      no_data_exactly_when_absent_or_falsy
        [where st = "Map.empty(''uploadData'' \<mapsto> OtherText [])" and b = fresh_browser
           and e = e]
      no_data_exactly_when_absent_or_falsy
        [where st = "Map.empty(''uploadData'' \<mapsto> JsonText JNull)" and v = JNull
           and b = fresh_browser and e = e]
      no_data_exactly_when_absent_or_falsy
        [where st = "Map.empty(''uploadData'' \<mapsto> OtherText ''{'')" and s = "''{''"
           and b = fresh_browser and e = e]
      no_data_exactly_when_absent_or_falsy
        [where st = "Map.empty(''uploadData'' \<mapsto> JsonText (JObj []))" and v = "JObj []"
           and b = fresh_browser and e = e]
      no_data_exactly_when_absent_or_falsy
        [where st = "Map.empty(''uploadData'' \<mapsto> JsonText (JObj [(''uploads'', JObj [])]))"
           and v = "JObj [(''uploads'', JObj [])]" and b = fresh_browser and e = e]
    by (simp add: empty_lists_view no_subModules_view)
qed

subsection \<open>Object URLs\<close>

lemma quiet_ret: "quiet (ret x)"
  by (simp add: quiet_def ret_def)

lemma quiet_throw: "quiet (throw err)"
  by (simp add: quiet_def throw_def)

lemma quiet_and_then:
  assumes "quiet m" and "\<And>x. quiet (f x)"
  shows "quiet (and_then m f)"
  unfolding quiet_def
proof (intro allI)
  fix b
  obtain r b1 where mb: "m b = (r, b1)" by (cases "m b")
  show "case and_then m f b of
          (Inr x, b') \<Rightarrow> b' = b
        | (Inl err, b') \<Rightarrow>
            creations b' = creations b \<and> revocations b' = revocations b \<and>
            live_urls b' = live_urls b"
  proof (cases r)
    case (Inl err)
    with assms(1) mb show ?thesis
      by (auto simp: quiet_def and_then_def dest: spec [of _ b])
  next
    case (Inr x)
    with assms(1) mb have "b1 = b"
      by (auto simp: quiet_def dest: spec [of _ b])
    with Inr mb assms(2) [of x] show ?thesis
      by (auto simp: quiet_def and_then_def dest: spec [of _ b])
  qed
qed

lemma quiet_refused: "quiet (createObjectURL (NoBlob v))"
  by (simp add: quiet_def createObjectURL_def creations_def revocations_def)

lemma quiet_viewURL: "quiet (viewURL file)"
  by (simp add: viewURL_def quiet_and_then quiet_refused quiet_ret)

lemma quiet_file_row: "quiet (file_row file)"
  unfolding file_row_def
  by (intro quiet_and_then quiet_viewURL) (simp add: quiet_throw quiet_ret)

lemma quiet_each: "(\<And>x. quiet (f x)) \<Longrightarrow> quiet (each f xs)"
  by (induction xs) (simp_all add: quiet_ret quiet_and_then)

lemma quiet_category_rows: "quiet (category_rows e entry)"
  by (simp add: category_rows_def quiet_throw quiet_each quiet_file_row split: sum.splits)

lemma quiet_top_rows: "quiet (top_rows e ups k)"
  by (simp add: top_rows_def quiet_ret quiet_and_then quiet_each quiet_category_rows)

lemma quiet_sub_rows: "quiet (sub_rows e ups sub)"
  by (simp add: sub_rows_def quiet_throw quiet_ret quiet_each quiet_file_row split: sum.splits)

lemma quiet_render_data: "quiet (render_data e d)"
  unfolding render_data_def
  by (auto split: option.splits jsval.splits
      intro!: quiet_throw quiet_ret quiet_and_then quiet_each quiet_top_rows quiet_sub_rows)

lemma quiet_CodeViewer: "quiet (CodeViewer e st)"
  by (simp add: CodeViewer_def render_CodeViewer_def quiet_throw quiet_ret quiet_render_data
      split: sum.splits option.splits)

text \<open>
  C10: the files that \<open>CodeViewer\<close> reads are values of parsed JSON, for which
  \<open>URL.createObjectURL\<close> throws; so a view of any stored document, on any engine, creates
  no object URL, revokes none and leaves the registered ones alone, and a view that
  completes has not called \<open>URL.createObjectURL\<close> at all. \<open>downloadFile\<close> returns after
  exactly one creation followed by the revocation of the same URL, which is not
  registered afterwards; the URLs registered before stay as they were. In each
  operation the creations equal the revocations.
\<close>

theorem object_urls_balanced:
  "creations (snd (CodeViewer e st b)) = creations b \<and>
   revocations (snd (CodeViewer e st b)) = revocations b \<and>
   live_urls (snd (CodeViewer e st b)) = live_urls b \<and>
   (fst (CodeViewer e st b) = Inr v \<longrightarrow> snd (CodeViewer e st b) = b) \<and>
   fst (downloadFile content filename contentType b) = Inr () \<and>
   url_log (snd (downloadFile content filename contentType b)) =
     url_log b @ [Created (next_url b), Revoked (next_url b)] \<and>
   creations (snd (downloadFile content filename contentType b)) = Suc (creations b) \<and>
   revocations (snd (downloadFile content filename contentType b)) = Suc (revocations b) \<and>
   next_url b \<notin> set (live_urls (snd (downloadFile content filename contentType b))) \<and>
   (next_url b \<notin> set (live_urls b) \<longrightarrow>
      live_urls (snd (downloadFile content filename contentType b)) = live_urls b)"
proof -
  obtain r b' where c: "CodeViewer e st b = (r, b')" by (cases "CodeViewer e st b")
  have q: "case CodeViewer e st b of
             (Inr x, b') \<Rightarrow> b' = b
           | (Inl err, b') \<Rightarrow>
               creations b' = creations b \<and> revocations b' = revocations b \<and>
               live_urls b' = live_urls b"
    using quiet_CodeViewer [of e st] by (simp add: quiet_def)
  have 1: "creations b' = creations b \<and> revocations b' = revocations b \<and>
           live_urls b' = live_urls b \<and> (r = Inr v \<longrightarrow> b' = b)"
    using q c by (cases r) auto
  have 2: "downloadFile content filename contentType b =
     (Inr (), b\<lparr>next_url := Suc (next_url b),
               live_urls := removeAll (next_url b) (live_urls b @ [next_url b]),
               url_log := url_log b @ [Created (next_url b), Revoked (next_url b)],
               clicked := clicked b @ [(next_url b, filename)]\<rparr>)"
    by (simp add: downloadFile_def and_then_def createObjectURL_def click_link_def
        revokeObjectURL_def)
  show ?thesis
    using 1 by (simp add: c 2 creations_def revocations_def)
qed

text \<open>
  C10, witness: on every engine, the package submitted with empty selections is shown
  as a page and the browser is as before; the package of the scenario, whose one file was
  written as \<open>{}\<close>, makes the first \<open>URL.createObjectURL\<close> throw, with no URL created or
  revoked; a download of \<open>alu.v\<close> creates the URL 0, clicks it and revokes it.
\<close>

theorem object_urls_balanced_witness:
  "\<forall>e. CodeViewer e empty_lists_storage fresh_browser = (Inr (Page [] []), fresh_browser) \<and>
       CodeViewer e earlier_storage fresh_browser =
         (Inl TypeError, fresh_browser\<lparr>url_log := [Refused]\<rparr>) \<and>
       creations (fresh_browser\<lparr>url_log := [Refused]\<rparr>) = 0 \<and>
       revocations (fresh_browser\<lparr>url_log := [Refused]\<rparr>) = 0 \<and>
       downloadFile ''module alu; endmodule'' ''alu.v'' ''text/plain'' fresh_browser =
         (Inr (), \<lparr>next_url = 1, live_urls = [], url_log = [Created 0, Revoked 0],
                   clicked = [(0, ''alu.v'')]\<rparr>)"
proof
  fix e
  have d: "downloadFile ''module alu; endmodule'' ''alu.v'' ''text/plain'' fresh_browser =
         (Inr (), \<lparr>next_url = 1, live_urls = [], url_log = [Created 0, Revoked 0],
                   clicked = [(0, ''alu.v'')]\<rparr>)"
    by (simp add: downloadFile_def and_then_def createObjectURL_def click_link_def
        revokeObjectURL_def fresh_browser_def)
  have c: "creations (fresh_browser\<lparr>url_log := [Refused]\<rparr>) = 0 \<and>
           revocations (fresh_browser\<lparr>url_log := [Refused]\<rparr>) = 0"
    by (simp add: creations_def revocations_def)
  show "CodeViewer e empty_lists_storage fresh_browser = (Inr (Page [] []), fresh_browser) \<and>
       CodeViewer e earlier_storage fresh_browser =
         (Inl TypeError, fresh_browser\<lparr>url_log := [Refused]\<rparr>) \<and>
       creations (fresh_browser\<lparr>url_log := [Refused]\<rparr>) = 0 \<and>
       revocations (fresh_browser\<lparr>url_log := [Refused]\<rparr>) = 0 \<and>
       downloadFile ''module alu; endmodule'' ''alu.v'' ''text/plain'' fresh_browser =
         (Inr (), \<lparr>next_url = 1, live_urls = [], url_log = [Created 0, Revoked 0],
                   clicked = [(0, ''alu.v'')]\<rparr>)"
    using d c
      object_urls_balanced [where e = e and st = empty_lists_storage and b = fresh_browser
        and v = "Page [] []"]
    by (simp add: empty_lists_view earlier_view)
qed

section \<open>Properties of the task monitor\<close>

subsection \<open>Time without a due interval\<close>

lemma run_append: "run (es @ fs) s = run fs (run es s)"
  by (induction es arbitrary: s) simp_all

lemma run_ticks: "run (replicate n Tick) s = advance n s"
proof (induction n)
  case 0
  show ?case by simp
next
  case (Suc n)
  have "run (replicate (Suc n) Tick) s = run (replicate n Tick @ [Tick]) s"
    by (simp add: replicate_append_same)
  also have "\<dots> = tick (run (replicate n Tick) s)"
    by (simp add: run_append)
  finally show ?case by (simp add: Suc.IH)
qed

lemma tick_quiet:
  assumes "\<forall>i \<in> set (intervals s). Suc (clock s) < due i"
  shows "tick s = s\<lparr>clock := Suc (clock s)\<rparr>"
proof -
  have f: "filter (\<lambda>i. due i \<le> Suc (clock s)) (intervals s) = []"
    using assms by (auto simp: filter_empty_conv)
  have m: "map (\<lambda>i. if due i \<le> Suc (clock s) then i\<lparr>due := Suc (clock s) + period i\<rparr> else i)
             (intervals s) = intervals s"
    using assms by (intro map_idI) auto
  show ?thesis
    unfolding tick_def Let_def f m by simp
qed

lemma advance_quiet:
  "\<forall>i \<in> set (intervals s). clock s + d < due i \<Longrightarrow> advance d s = s\<lparr>clock := clock s + d\<rparr>"
proof (induction d)
  case 0
  show ?case by simp
next
  case (Suc d)
  then have q: "\<forall>i \<in> set (intervals s). clock s + d < due i" by auto
  have a: "advance d s = s\<lparr>clock := clock s + d\<rparr>" by (rule Suc.IH [OF q])
  have p: "\<forall>i \<in> set (intervals (s\<lparr>clock := clock s + d\<rparr>)).
             Suc (clock (s\<lparr>clock := clock s + d\<rparr>)) < due i"
    using Suc.prems by simp
  have "tick (s\<lparr>clock := clock s + d\<rparr>) = (s\<lparr>clock := clock s + d\<rparr>)\<lparr>clock := Suc (clock s + d)\<rparr>"
    using tick_quiet [OF p] by simp
  then show ?case by (simp add: a)
qed

lemma advance_add: "advance (m + n) s = advance n (advance m s)"
  by (induction n) simp_all

lemma polling_panel_eq:
  "polling_panel =
     \<lparr>status = None, progress = 0, logs = [], deps = Some (Some ''t-1''), cleanup = Some 0,
      mounted = (\<lambda>c. False)(0 := True),
      intervals = [\<lparr>owner = 0, task = ''t-1'', job = StatusFetch, period = 1500, due = 3000\<rparr>,
                   \<lparr>owner = 0, task = ''t-1'', job = LogFetch, period = 2000, due = 2000\<rparr>],
      inflight = [\<lparr>issuer = 0, target = ''t-1'', what = StatusFetch\<rparr>],
      clock = 1500, next_closure = 1, gone = False\<rparr>"
proof -
  let ?s1 = "render_panel (Some ''t-1'') initial_panel"
  have s1: "?s1 =
     \<lparr>status = None, progress = 0, logs = [], deps = Some (Some ''t-1''), cleanup = Some 0,
      mounted = (\<lambda>c. False)(0 := True),
      intervals = [\<lparr>owner = 0, task = ''t-1'', job = StatusFetch, period = 1500, due = 1500\<rparr>,
                   \<lparr>owner = 0, task = ''t-1'', job = LogFetch, period = 2000, due = 2000\<rparr>],
      inflight = [], clock = 0, next_closure = 1, gone = False\<rparr>"
    by (simp add: render_panel_def initial_panel_def run_effect_def previous_cleanup_def Let_def)
  have q: "advance 1499 ?s1 = ?s1\<lparr>clock := clock ?s1 + 1499\<rparr>"
    by (rule advance_quiet) (simp add: s1)
  have "polling_panel = advance 1500 ?s1"
    by (simp add: polling_panel_def run_ticks)
  also have "\<dots> = tick (advance 1499 ?s1)"
    by (simp add: eval_nat_numeral)
  also have "\<dots> = tick (?s1\<lparr>clock := clock ?s1 + 1499\<rparr>)"
    by (simp only: q)
  finally show ?thesis
    by (simp add: s1 tick_def fire_def Let_def)
qed

subsection \<open>What the steps leave alone\<close>

lemma fold_fire:
  "fold fire is s = s\<lparr>inflight := inflight s @ map (\<lambda>i. \<lparr>issuer = owner i, target = task i, what = job i\<rparr>) is\<rparr>"
  by (induction "is" arbitrary: s) (simp_all add: fire_def)

lemma tick_flags: "mounted (tick s) = mounted s \<and> next_closure (tick s) = next_closure s \<and>
   cleanup (tick s) = cleanup s \<and> gone (tick s) = gone s \<and> snapshot (tick s) = snapshot s"
  by (simp add: tick_def Let_def fold_fire snapshot_def)

lemma status_arrives_flags:
  "mounted (status_arrives r resp s) = mounted s \<and>
   next_closure (status_arrives r resp s) = next_closure s \<and>
   cleanup (status_arrives r resp s) = cleanup s \<and> gone (status_arrives r resp s) = gone s"
  by (simp add: status_arrives_def split: response.splits)

lemma logs_arrive_flags:
  "mounted (logs_arrive r resp s) = mounted s \<and>
   next_closure (logs_arrive r resp s) = next_closure s \<and>
   cleanup (logs_arrive r resp s) = cleanup s \<and> gone (logs_arrive r resp s) = gone s"
  by (simp add: logs_arrive_def split: response.splits)

lemma cleaned_up_previous_cleanup: "cleaned_up c s \<Longrightarrow> cleaned_up c (previous_cleanup s)"
  by (simp add: cleaned_up_def previous_cleanup_def run_cleanup_def split: option.splits)

lemma cleaned_up_run_effect: "cleaned_up c s \<Longrightarrow> cleaned_up c (run_effect p s)"
  by (auto simp: cleaned_up_def run_effect_def Let_def split: option.splits)

lemma cleaned_up_render: "cleaned_up c s \<Longrightarrow> cleaned_up c (render_panel p s)"
proof -
  assume a: "cleaned_up c s"
  then have "cleaned_up c ((previous_cleanup s)\<lparr>deps := Some p\<rparr>)"
    using cleaned_up_previous_cleanup [OF a] by (simp add: cleaned_up_def)
  then show ?thesis
    using a by (simp add: render_panel_def cleaned_up_run_effect)
qed

lemma cleaned_up_unmount: "cleaned_up c s \<Longrightarrow> cleaned_up c (unmount s)"
  using cleaned_up_previous_cleanup [of c s] by (simp add: unmount_def cleaned_up_def)

lemma cleaned_up_step: "cleaned_up c s \<Longrightarrow> cleaned_up c (step e s)"
proof (cases e)
  case (Render p)
  then show "cleaned_up c s \<Longrightarrow> ?thesis" by (simp add: cleaned_up_render)
next
  case Unmount
  then show "cleaned_up c s \<Longrightarrow> ?thesis" by (simp add: cleaned_up_unmount)
next
  case Tick
  then show "cleaned_up c s \<Longrightarrow> ?thesis" by (simp add: cleaned_up_def tick_flags)
next
  case (StatusSettles i resp)
  then show "cleaned_up c s \<Longrightarrow> ?thesis"
    by (simp add: cleaned_up_def status_arrives_flags)
next
  case (LogsSettle i resp)
  then show "cleaned_up c s \<Longrightarrow> ?thesis"
    by (simp add: cleaned_up_def logs_arrive_flags)
qed

lemma cleaned_up_run: "cleaned_up c s \<Longrightarrow> cleaned_up c (run es s)"
  by (induction es arbitrary: s) (simp_all add: cleaned_up_step)

lemma cleanup_known_step: "cleanup_known s \<Longrightarrow> cleanup_known (step e s)"
proof (cases e)
  case (Render p)
  then show "cleanup_known s \<Longrightarrow> ?thesis"
    by (auto simp: cleanup_known_def render_panel_def run_effect_def previous_cleanup_def
        run_cleanup_def Let_def split: option.splits)
next
  case Unmount
  then show "cleanup_known s \<Longrightarrow> ?thesis"
    by (simp add: cleanup_known_def unmount_def)
next
  case Tick
  then show "cleanup_known s \<Longrightarrow> ?thesis"
    by (simp add: cleanup_known_def tick_flags split: option.splits)
next
  case (StatusSettles i resp)
  then show "cleanup_known s \<Longrightarrow> ?thesis"
    by (simp add: cleanup_known_def status_arrives_flags split: option.splits)
next
  case (LogsSettle i resp)
  then show "cleanup_known s \<Longrightarrow> ?thesis"
    by (simp add: cleanup_known_def logs_arrive_flags split: option.splits)
qed

lemma cleanup_known_run: "cleanup_known s \<Longrightarrow> cleanup_known (run es s)"
  by (induction es arbitrary: s) (simp_all add: cleanup_known_step)

lemma cleanup_known_reachable: "cleanup_known (run es initial_panel)"
  by (rule cleanup_known_run) (simp add: cleanup_known_def initial_panel_def)

lemma cleaned_up_after_unmount:
  "cleanup_known s \<Longrightarrow> cleanup s = Some c \<Longrightarrow> cleaned_up c (unmount s)"
  by (simp add: cleanup_known_def cleaned_up_def unmount_def previous_cleanup_def run_cleanup_def)

lemma cleaned_up_after_rebind:
  "cleanup_known s \<Longrightarrow> cleanup s = Some c \<Longrightarrow> deps s \<noteq> Some p \<Longrightarrow>
   cleaned_up c (render_panel p s)"
  by (auto simp: cleanup_known_def cleaned_up_def render_panel_def previous_cleanup_def
      run_cleanup_def run_effect_def Let_def split: option.splits)

lemma dropped_when_cleaned_up:
  "cleaned_up (issuer r) t \<Longrightarrow>
   snapshot (status_arrives r sresp (t\<lparr>inflight := q\<rparr>)) = snapshot t \<and>
   snapshot (logs_arrive r lresp (t\<lparr>inflight := q\<rparr>)) = snapshot t"
  by (simp add: cleaned_up_def status_arrives_def logs_arrive_def snapshot_def
      split: response.splits)

subsection \<open>Results that arrive late\<close>

text \<open>
  C1: let the monitor, in a state reached from the initial one, be bound by the effect
  closure \<open>c\<close>, and let it be stopped (unmounted) or rendered with another task id. Then,
  whatever happens afterwards, a status or a log result of a request that closure \<open>c\<close>
  sent changes nothing of status, progress and logs, whether it is given to the
  continuation directly or settles as the \<open>i\<close>-th request in flight.
\<close>

theorem stale_results_discarded:
  assumes "s = run before initial_panel"
    and "cleanup s = Some c"
    and "s' = unmount s \<or> (deps s \<noteq> Some p \<and> s' = render_panel p s)"
  shows "(issuer r = c \<longrightarrow>
            snapshot (status_arrives r sresp (run after s')) = snapshot (run after s') \<and>
            snapshot (logs_arrive r lresp (run after s')) = snapshot (run after s')) \<and>
         (i < length (inflight (run after s')) \<and> issuer (inflight (run after s') ! i) = c \<longrightarrow>
            snapshot (step (StatusSettles i sresp) (run after s')) = snapshot (run after s') \<and>
            snapshot (step (LogsSettle i lresp) (run after s')) = snapshot (run after s'))"
proof -
  have k: "cleanup_known s"
    using assms(1) by (simp add: cleanup_known_reachable)
  have "cleaned_up c s'"
    using assms(3) cleaned_up_after_unmount [OF k assms(2)]
      cleaned_up_after_rebind [OF k assms(2)] by blast
  then have c: "cleaned_up c (run after s')"
    by (rule cleaned_up_run)
  have d: "snapshot (status_arrives r sresp (run after s')) = snapshot (run after s') \<and>
           snapshot (logs_arrive r lresp (run after s')) = snapshot (run after s')"
    if "issuer r = c" for r
    using dropped_when_cleaned_up [of r "run after s'" sresp "inflight (run after s')" lresp] c that
    by simp
  have e: "snapshot (step (StatusSettles i sresp) (run after s')) = snapshot (run after s') \<and>
           snapshot (step (LogsSettle i lresp) (run after s')) = snapshot (run after s')"
    if "issuer (inflight (run after s') ! i) = c"
    using dropped_when_cleaned_up [of "inflight (run after s') ! i" "run after s'"] c that
    by simp
  show ?thesis using d e by blast
qed

lemma rebound_panel_eq:
  "rebound_panel =
     \<lparr>status = None, progress = 0, logs = [], deps = Some (Some ''t-2''), cleanup = Some 1,
      mounted = (\<lambda>c. False)(0 := False, 1 := True),
      intervals = [\<lparr>owner = 1, task = ''t-2'', job = StatusFetch, period = 1500, due = 3000\<rparr>,
                   \<lparr>owner = 1, task = ''t-2'', job = LogFetch, period = 2000, due = 3500\<rparr>],
      inflight = [\<lparr>issuer = 0, target = ''t-1'', what = StatusFetch\<rparr>],
      clock = 1500, next_closure = 2, gone = False\<rparr>"
  by (simp add: rebound_panel_def polling_panel_eq render_panel_def run_effect_def
      previous_cleanup_def run_cleanup_def Let_def fun_upd_twist)

text \<open>
  C1, witness: the panel polls \<open>t-1\<close> for 1500 ms and is rendered with \<open>t-2\<close> while the
  first status request is in flight; the reply \<open>completed\<close>, 100 for \<open>t-1\<close> leaves the
  snapshot as it was.
\<close>

theorem stale_results_discarded_witness:
  "cleanup polling_panel = Some 0 \<and>
   deps polling_panel \<noteq> Some (Some ''t-2'') \<and>
   inflight rebound_panel = [\<lparr>issuer = 0, target = ''t-1'', what = StatusFetch\<rparr>] \<and>
   snapshot rebound_panel = (None, 0, []) \<and>
   snapshot (step (StatusSettles 0 completed_reply) rebound_panel) = (None, 0, []) \<and>
   snapshot (status_arrives \<lparr>issuer = 0, target = ''t-1'', what = StatusFetch\<rparr>
               completed_reply rebound_panel) = (None, 0, [])"
proof -
  have a: "polling_panel = run (Render (Some ''t-1'') # replicate 1500 Tick) initial_panel"
    by (simp add: polling_panel_def)
  have b: "cleanup polling_panel = Some 0"
    by (simp add: polling_panel_eq)
  have c: "rebound_panel = unmount polling_panel \<or>
           (deps polling_panel \<noteq> Some (Some ''t-2'') \<and>
            rebound_panel = render_panel (Some ''t-2'') polling_panel)"
    by (simp add: rebound_panel_def polling_panel_eq)
  have i: "inflight rebound_panel = [\<lparr>issuer = 0, target = ''t-1'', what = StatusFetch\<rparr>]"
    by (simp add: rebound_panel_eq)
  have s: "snapshot rebound_panel = (None, 0, [])"
    by (simp add: rebound_panel_eq snapshot_def)
  show ?thesis
    using b i s
      stale_results_discarded [OF a b c,
        of "\<lparr>issuer = 0, target = ''t-1'', what = StatusFetch\<rparr>" completed_reply "[]" "Rejected" 0]
    by (simp add: polling_panel_eq)
qed

subsection \<open>The first fetches\<close>

lemma render_idle:
  assumes "phase_of s = Idle" and "intervals s = []" and "deps s \<noteq> Some (Some h)" and "h \<noteq> []"
  shows "render_panel (Some h) s =
     s\<lparr>deps := Some (Some h),
       mounted := (mounted s)(next_closure s := True),
       intervals :=
         [\<lparr>owner = next_closure s, task = h, job = StatusFetch, period = 1500,
           due = clock s + 1500\<rparr>,
          \<lparr>owner = next_closure s, task = h, job = LogFetch, period = 2000,
           due = clock s + 2000\<rparr>],
       cleanup := Some (next_closure s),
       next_closure := Suc (next_closure s)\<rparr>"
proof -
  from assms(1) have g: "\<not> gone s" and c: "cleanup s = None"
    by (auto simp: phase_of_def split: if_splits)
  show ?thesis
    using g c assms(2,3,4)
    by (simp add: render_panel_def previous_cleanup_def run_effect_def Let_def)
qed

lemma first_status_fetch:
  assumes "intervals s1 =
             [\<lparr>owner = c, task = h, job = StatusFetch, period = 1500, due = clock s1 + 1500\<rparr>,
              \<lparr>owner = c, task = h, job = LogFetch, period = 2000, due = clock s1 + 2000\<rparr>]"
  shows "d < 1500 \<Longrightarrow> advance d s1 = s1\<lparr>clock := clock s1 + d\<rparr>"
    and "advance 1500 s1 =
           s1\<lparr>inflight := inflight s1 @ [status_request c h],
              clock := clock s1 + 1500,
              intervals :=
                [\<lparr>owner = c, task = h, job = StatusFetch, period = 1500, due = clock s1 + 3000\<rparr>,
                 \<lparr>owner = c, task = h, job = LogFetch, period = 2000, due = clock s1 + 2000\<rparr>]\<rparr>"
proof -
  show q: "advance d s1 = s1\<lparr>clock := clock s1 + d\<rparr>" if "d < 1500" for d
    using that by (intro advance_quiet) (simp add: assms)
  have "advance 1500 s1 = tick (advance 1499 s1)"
    by (simp add: eval_nat_numeral)
  also have "\<dots> = tick (s1\<lparr>clock := clock s1 + 1499\<rparr>)"
    by (simp add: q)
  finally show "advance 1500 s1 =
           s1\<lparr>inflight := inflight s1 @ [status_request c h],
              clock := clock s1 + 1500,
              intervals :=
                [\<lparr>owner = c, task = h, job = StatusFetch, period = 1500, due = clock s1 + 3000\<rparr>,
                 \<lparr>owner = c, task = h, job = LogFetch, period = 2000, due = clock s1 + 2000\<rparr>]\<rparr>"
    by (simp add: tick_def Let_def assms fire_def status_request_def)
qed

lemma first_log_fetch:
  assumes "intervals s1 =
             [\<lparr>owner = c, task = h, job = StatusFetch, period = 1500, due = clock s1 + 1500\<rparr>,
              \<lparr>owner = c, task = h, job = LogFetch, period = 2000, due = clock s1 + 2000\<rparr>]"
  shows "1500 \<le> d \<Longrightarrow> d < 2000 \<Longrightarrow>
           inflight (advance d s1) = inflight s1 @ [status_request c h]"
    and "inflight (advance 2000 s1) = inflight s1 @ [status_request c h, log_request c h]"
proof -
  let ?s2 = "s1\<lparr>inflight := inflight s1 @ [status_request c h],
              clock := clock s1 + 1500,
              intervals :=
                [\<lparr>owner = c, task = h, job = StatusFetch, period = 1500, due = clock s1 + 3000\<rparr>,
                 \<lparr>owner = c, task = h, job = LogFetch, period = 2000, due = clock s1 + 2000\<rparr>]\<rparr>"
  have a: "advance 1500 s1 = ?s2"
    by (rule first_status_fetch(2) [OF assms])
  have q: "advance (1500 + e) s1 = ?s2\<lparr>clock := clock ?s2 + e\<rparr>" if "e < 500" for e
  proof -
    have "advance (1500 + e) s1 = advance e ?s2"
      by (simp only: advance_add a)
    also have "\<dots> = ?s2\<lparr>clock := clock ?s2 + e\<rparr>"
      using that by (intro advance_quiet) simp
    finally show ?thesis .
  qed
  show "inflight (advance d s1) = inflight s1 @ [status_request c h]"
    if "1500 \<le> d" and "d < 2000" for d
  proof -
    from that have "d = 1500 + (d - 1500)" and "d - 1500 < 500" by auto
    then show ?thesis using q [of "d - 1500"] by simp
  qed
  have "advance 2000 s1 = tick (advance (1500 + 499) s1)"
    by (simp add: eval_nat_numeral)
  also have "\<dots> = tick (?s2\<lparr>clock := clock ?s2 + 499\<rparr>)"
    using q [of 499] by simp
  finally show "inflight (advance 2000 s1) = inflight s1 @ [status_request c h, log_request c h]"
    by (simp add: tick_def Let_def fire_def log_request_def)
qed

text \<open>
  C5, as stated, fails: the first render with the task \<open>t-1\<close> makes the monitor active
  and sends nothing; 1499 ms later still nothing has been sent. With the empty string as
  the task id, the effect returns at once and the monitor stays idle.
\<close>

theorem no_fetch_at_start:
  "phase_of initial_panel = Idle \<and>
   phase_of started_panel = Active \<and>
   inflight started_panel = [] \<and>
   inflight (advance 1499 started_panel) = [] \<and>
   phase_of (render_panel (Some []) initial_panel) = Idle"
proof -
  have s: "started_panel =
     \<lparr>status = None, progress = 0, logs = [], deps = Some (Some ''t-1''), cleanup = Some 0,
      mounted = (\<lambda>c. False)(0 := True),
      intervals = [\<lparr>owner = 0, task = ''t-1'', job = StatusFetch, period = 1500, due = 1500\<rparr>,
                   \<lparr>owner = 0, task = ''t-1'', job = LogFetch, period = 2000, due = 2000\<rparr>],
      inflight = [], clock = 0, next_closure = 1, gone = False\<rparr>"
    by (simp add: started_panel_def render_panel_def initial_panel_def run_effect_def
        previous_cleanup_def Let_def)
  have "advance 1499 started_panel = started_panel\<lparr>clock := clock started_panel + 1499\<rparr>"
    by (rule advance_quiet) (simp add: s)
  then show ?thesis
    by (simp add: s phase_of_def initial_panel_def render_panel_def run_effect_def
        previous_cleanup_def)
qed

text \<open>
  C5, amended: for every non-empty handle \<open>h\<close>, starting an idle monitor makes it active
  and schedules both loops without sending a request: nothing is sent during the first
  1499 ms, the first status request is sent when 1500 ms have passed, it stays the only
  one until the first log request is sent when 2000 ms have passed.
\<close>

theorem start_schedules_both_loops:
  assumes "phase_of s = Idle" and "intervals s = []"
    and "deps s \<noteq> Some (Some h)" and "h \<noteq> []"
  shows "phase_of (render_panel (Some h) s) = Active \<and>
         inflight (render_panel (Some h) s) = inflight s \<and>
         (\<forall>d < 1500. inflight (advance d (render_panel (Some h) s)) = inflight s) \<and>
         (\<forall>d. 1500 \<le> d \<and> d < 2000 \<longrightarrow>
              inflight (advance d (render_panel (Some h) s)) =
                inflight s @ [status_request (next_closure s) h]) \<and>
         inflight (advance 2000 (render_panel (Some h) s)) =
           inflight s @ [status_request (next_closure s) h, log_request (next_closure s) h]"
proof -
  let ?s1 = "render_panel (Some h) s"
  note r = render_idle [OF assms]
  from assms(1) have g: "\<not> gone s"
    by (auto simp: phase_of_def split: if_splits)
  have i: "intervals ?s1 =
     [\<lparr>owner = next_closure s, task = h, job = StatusFetch, period = 1500,
       due = clock ?s1 + 1500\<rparr>,
      \<lparr>owner = next_closure s, task = h, job = LogFetch, period = 2000,
       due = clock ?s1 + 2000\<rparr>]"
    by (simp add: r)
  have f: "inflight ?s1 = inflight s"
    by (simp add: r)
  have "phase_of ?s1 = Active"
    using g by (simp add: r phase_of_def)
  moreover have "inflight (advance d ?s1) = inflight s" if "d < 1500" for d
    using first_status_fetch(1) [OF i that] f by simp
  moreover have "inflight (advance d ?s1) = inflight s @ [status_request (next_closure s) h]"
    if "1500 \<le> d" and "d < 2000" for d
    using first_log_fetch(1) [OF i that] f by simp
  moreover have "inflight (advance 2000 ?s1) =
      inflight s @ [status_request (next_closure s) h, log_request (next_closure s) h]"
    using first_log_fetch(2) [OF i] f by simp
  ultimately show ?thesis using f by blast
qed

text \<open>
  C5, witness: the initial panel started with \<open>t-1\<close>, observed at 0, 1499, 1500, 1999 and
  2000 ms.
\<close>

theorem start_schedules_both_loops_witness:
  "phase_of initial_panel = Idle \<and> intervals initial_panel = [] \<and>
   deps initial_panel \<noteq> Some (Some ''t-1'') \<and>
   phase_of (render_panel (Some ''t-1'') initial_panel) = Active \<and>
   inflight (advance 0 (render_panel (Some ''t-1'') initial_panel)) = [] \<and>
   inflight (advance 1499 (render_panel (Some ''t-1'') initial_panel)) = [] \<and>
   inflight (advance 1500 (render_panel (Some ''t-1'') initial_panel)) =
     [status_request 0 ''t-1''] \<and>
   inflight (advance 1999 (render_panel (Some ''t-1'') initial_panel)) =
     [status_request 0 ''t-1''] \<and>
   inflight (advance 2000 (render_panel (Some ''t-1'') initial_panel)) =
     [status_request 0 ''t-1'', log_request 0 ''t-1'']"
proof -
  have a: "phase_of initial_panel = Idle"
    by (simp add: phase_of_def initial_panel_def)
  have b: "intervals initial_panel = []"
    by (simp add: initial_panel_def)
  have c: "deps initial_panel \<noteq> Some (Some ''t-1'')"
    by (simp add: initial_panel_def)
  have d: "''t-1'' \<noteq> []"
    by simp
  have n: "next_closure initial_panel = 0" and e: "inflight initial_panel = []"
    by (simp_all add: initial_panel_def)
  note t = start_schedules_both_loops [OF a b c d, unfolded n e, simplified]
  from t have q1: "\<forall>d < 1500. inflight (advance d (render_panel (Some ''t-1'') initial_panel)) = []"
    by blast
  from t have q2: "\<forall>d. 1500 \<le> d \<and> d < 2000 \<longrightarrow>
      inflight (advance d (render_panel (Some ''t-1'') initial_panel)) = [status_request 0 ''t-1'']"
    by blast
  show ?thesis
    using a b c t q1 [rule_format, of 0] q1 [rule_format, of 1499]
      q2 [rule_format, of 1500] q2 [rule_format, of 1999]
    by simp
qed

subsection \<open>Log results\<close>

lemma logging_panel_eq:
  "logging_panel =
     \<lparr>status = None, progress = 0, logs = [], deps = Some (Some ''t-1''), cleanup = Some 0,
      mounted = (\<lambda>c. False)(0 := True),
      intervals = [\<lparr>owner = 0, task = ''t-1'', job = StatusFetch, period = 1500, due = 3000\<rparr>,
                   \<lparr>owner = 0, task = ''t-1'', job = LogFetch, period = 2000, due = 4000\<rparr>],
      inflight = [\<lparr>issuer = 0, target = ''t-1'', what = StatusFetch\<rparr>,
                  \<lparr>issuer = 0, target = ''t-1'', what = LogFetch\<rparr>],
      clock = 2000, next_closure = 1, gone = False\<rparr>"
proof -
  have p: "advance 1500 (render_panel (Some ''t-1'') initial_panel) = polling_panel"
    by (simp add: polling_panel_def run_ticks)
  have q: "advance 499 polling_panel = polling_panel\<lparr>clock := clock polling_panel + 499\<rparr>"
    by (rule advance_quiet) (simp add: polling_panel_eq)
  have "logging_panel = advance (1500 + 499 + 1) (render_panel (Some ''t-1'') initial_panel)"
    by (simp add: logging_panel_def run_ticks)
  also have "\<dots> = tick (advance 499 polling_panel)"
    by (simp only: advance_add p) simp
  also have "\<dots> = tick (polling_panel\<lparr>clock := clock polling_panel + 499\<rparr>)"
    by (simp only: q)
  finally show ?thesis
    by (simp add: polling_panel_eq tick_def fire_def Let_def)
qed

lemma late_panel_eq:
  "late_panel =
     \<lparr>status = None, progress = 0, logs = [], deps = Some (Some ''t-2''), cleanup = Some 1,
      mounted = (\<lambda>c. False)(0 := False, 1 := True),
      intervals = [\<lparr>owner = 1, task = ''t-2'', job = StatusFetch, period = 1500, due = 3500\<rparr>,
                   \<lparr>owner = 1, task = ''t-2'', job = LogFetch, period = 2000, due = 4000\<rparr>],
      inflight = [\<lparr>issuer = 0, target = ''t-1'', what = StatusFetch\<rparr>,
                  \<lparr>issuer = 0, target = ''t-1'', what = LogFetch\<rparr>],
      clock = 2000, next_closure = 2, gone = False\<rparr>"
  by (simp add: late_panel_def logging_panel_eq render_panel_def run_effect_def
      previous_cleanup_def run_cleanup_def Let_def fun_upd_twist)

lemma reading_panel_eq:
  "reading_panel =
     \<lparr>status = None, progress = 0, logs = ''init'', deps = Some (Some ''t-1''),
      cleanup = Some 0, mounted = (\<lambda>c. False)(0 := True),
      intervals = [\<lparr>owner = 0, task = ''t-1'', job = StatusFetch, period = 1500, due = 4500\<rparr>,
                   \<lparr>owner = 0, task = ''t-1'', job = LogFetch, period = 2000, due = 6000\<rparr>],
      inflight = [\<lparr>issuer = 0, target = ''t-1'', what = StatusFetch\<rparr>,
                  \<lparr>issuer = 0, target = ''t-1'', what = StatusFetch\<rparr>,
                  \<lparr>issuer = 0, target = ''t-1'', what = LogFetch\<rparr>],
      clock = 4000, next_closure = 1, gone = False\<rparr>"
proof -
  define a where "a = step (LogsSettle 1 (Resolved ''init'')) logging_panel"
  have a: "a =
     \<lparr>status = None, progress = 0, logs = ''init'', deps = Some (Some ''t-1''),
      cleanup = Some 0, mounted = (\<lambda>c. False)(0 := True),
      intervals = [\<lparr>owner = 0, task = ''t-1'', job = StatusFetch, period = 1500, due = 3000\<rparr>,
                   \<lparr>owner = 0, task = ''t-1'', job = LogFetch, period = 2000, due = 4000\<rparr>],
      inflight = [\<lparr>issuer = 0, target = ''t-1'', what = StatusFetch\<rparr>],
      clock = 2000, next_closure = 1, gone = False\<rparr>"
    by (simp add: a_def logging_panel_eq logs_arrive_def without_def)
  have q1: "advance 999 a = a\<lparr>clock := clock a + 999\<rparr>"
    by (rule advance_quiet) (simp add: a)
  define b where "b = tick (advance 999 a)"
  have b: "b =
     \<lparr>status = None, progress = 0, logs = ''init'', deps = Some (Some ''t-1''),
      cleanup = Some 0, mounted = (\<lambda>c. False)(0 := True),
      intervals = [\<lparr>owner = 0, task = ''t-1'', job = StatusFetch, period = 1500, due = 4500\<rparr>,
                   \<lparr>owner = 0, task = ''t-1'', job = LogFetch, period = 2000, due = 4000\<rparr>],
      inflight = [\<lparr>issuer = 0, target = ''t-1'', what = StatusFetch\<rparr>,
                  \<lparr>issuer = 0, target = ''t-1'', what = StatusFetch\<rparr>],
      clock = 3000, next_closure = 1, gone = False\<rparr>"
    unfolding b_def q1 by (simp add: a tick_def fire_def Let_def)
  have q2: "advance 999 b = b\<lparr>clock := clock b + 999\<rparr>"
    by (rule advance_quiet) (simp add: b)
  have "reading_panel = advance (999 + 1 + 999 + 1) a"
    by (simp add: reading_panel_def run_ticks a_def)
  also have "\<dots> = advance 1 (advance 999 (advance 1 (advance 999 a)))"
    by (simp only: advance_add)
  also have "\<dots> = tick (advance 999 b)"
    by (simp add: b_def)
  also have "\<dots> = tick (b\<lparr>clock := clock b + 999\<rparr>)"
    by (simp only: q2)
  finally show ?thesis
    by (simp add: b tick_def fire_def Let_def)
qed

text \<open>
  C8, as stated, fails: the first log request of the task \<open>t-1\<close> is in flight when the
  panel is rendered with \<open>t-2\<close>; it then resolves with \<open>init\<close>, a successful log fetch,
  and \<open>logs\<close> is not overwritten.
\<close>

theorem late_log_result_dropped:
  "inflight late_panel = [status_request 0 ''t-1'', log_request 0 ''t-1''] \<and>
   logs late_panel = [] \<and>
   logs (step (LogsSettle 1 (Resolved ''init'')) late_panel) = [] \<and>
   inflight (step (LogsSettle 1 (Resolved ''init'')) late_panel) = [status_request 0 ''t-1'']"
  by (simp add: late_panel_eq status_request_def log_request_def logs_arrive_def without_def)

text \<open>
  C8, amended: when a log request in flight settles, it leaves the requests in flight,
  and: if it resolves while the closure that sent it is still mounted (the monitor has
  been neither stopped nor rebound since), \<open>logs\<close> becomes the fetched value, whatever it
  held, and nothing else changes; if it resolves after that closure was cleaned up, or
  is rejected, \<open>logs\<close> and everything else stay as they were.
\<close>

theorem logs_replaced:
  assumes "i < length (inflight s)" and "what (inflight s ! i) = LogFetch"
  shows "(mounted s (issuer (inflight s ! i)) \<longrightarrow>
            step (LogsSettle i (Resolved l)) s =
              s\<lparr>logs := l, inflight := without i (inflight s)\<rparr>) \<and>
         (\<not> mounted s (issuer (inflight s ! i)) \<longrightarrow>
            step (LogsSettle i (Resolved l)) s = s\<lparr>inflight := without i (inflight s)\<rparr>) \<and>
         step (LogsSettle i Rejected) s = s\<lparr>inflight := without i (inflight s)\<rparr>"
  using assms by (simp add: logs_arrive_def)

text \<open>
  C8, witness: the panel polls \<open>t-1\<close>; its first log request, sent at 2000 ms, has
  resolved with \<open>init\<close>; its second, sent at 4000 ms, is third in flight. When that one
  resolves with \<open>init; done\<close>, \<open>logs\<close> is \<open>init; done\<close>; when it is rejected, \<open>logs\<close> stays
  \<open>init\<close>.
\<close>

theorem logs_replaced_witness:
  "inflight reading_panel =
     [status_request 0 ''t-1'', status_request 0 ''t-1'', log_request 0 ''t-1''] \<and>
   clock reading_panel = 4000 \<and>
   mounted reading_panel 0 \<and>
   logs reading_panel = ''init'' \<and>
   logs (step (LogsSettle 2 (Resolved ''init; done'')) reading_panel) = ''init; done'' \<and>
   inflight (step (LogsSettle 2 (Resolved ''init; done'')) reading_panel) =
     [status_request 0 ''t-1'', status_request 0 ''t-1''] \<and>
   logs (step (LogsSettle 2 Rejected) reading_panel) = ''init''"
proof -
  have i: "2 < length (inflight reading_panel)"
    by (simp add: reading_panel_eq)
  have w: "what (inflight reading_panel ! 2) = LogFetch"
    by (simp add: reading_panel_eq)
  have m: "mounted reading_panel (issuer (inflight reading_panel ! 2))"
    by (simp add: reading_panel_eq)
  from logs_replaced [OF i w, of "''init; done''"] m
  have r: "step (LogsSettle 2 (Resolved ''init; done'')) reading_panel =
             reading_panel\<lparr>logs := ''init; done'',
                            inflight := without 2 (inflight reading_panel)\<rparr>"
    and j: "step (LogsSettle 2 Rejected) reading_panel =
             reading_panel\<lparr>inflight := without 2 (inflight reading_panel)\<rparr>"
    by blast+
  show ?thesis
    unfolding r j
    by (simp add: reading_panel_eq status_request_def log_request_def without_def)
qed

end
